theory Spec2Isabelle
  imports Main "HOL-Library.Word" "HOL-Library.AList"
begin

section \<open>The pglogrepl demo: logical-replication consumer with batched apply\<close>

text \<open>
  A shallow embedding of \<^verbatim>\<open>example/pglogrepl_demo/main.go\<close>. The program has two
  activities: the receive loop of \<^verbatim>\<open>main\<close>, which tracks the replication position and
  hands WAL payloads to a channel, and the apply goroutine, which decodes each payload
  (\<^verbatim>\<open>processV2\<close>) and drives the \<^verbatim>\<open>applyContext\<close> (queue, begin, commit, flush).

  Conventions of the model:
  \<^item> \<^verbatim>\<open>[]byte\<close> and Go's \<^verbatim>\<open>string\<close> are both byte sequences, here \<open>char list\<close>, so the
    conversion \<^verbatim>\<open>string(data)\<close> is the identity;
  \<^item> \<^verbatim>\<open>time.Time\<close> is an \<open>int\<close> counting nanoseconds, \<^verbatim>\<open>time.Second\<close> is \<open>10^9\<close>;
  \<^item> \<^verbatim>\<open>log.Fatal*\<close> (exit of the process) and a run-time panic are values of the type
    \<open>stop\<close>; every function that can reach one returns \<open>stop + result\<close>;
  \<^item> what the program reads from outside (the clock, the outcome of \<^verbatim>\<open>SendBatch\<close>, the
    message received from the server) is an explicit argument;
  \<^item> functions of the libraries the file imports (the message parsers of pglogrepl, the
    type map and the identifier quoting of pgx) are parameters, collected in \<open>lib\<close>.
\<close>

subsection \<open>Data\<close>

type_synonym bytes = string
type_synonym LSN = "64 word"
type_synonym oid = "32 word"
type_synonym Time = int

definition second :: int where
  "second = 1000000000"

text \<open>The zero value \<^verbatim>\<open>time.Time{}\<close>: 1 January of year 1, as nanoseconds before the epoch.\<close>

definition zeroTime :: Time where
  "zeroTime = - 62135596800 * second"

text \<open>The values bound to a statement (\<^verbatim>\<open>interface{}\<close> in the source).\<close>

datatype goValue =
    VNil
  | VString string
  | VInt int
  | VBool bool
  | VLSN LSN
  | VTime Time

record RelationMessageColumn =
  Name :: string
  DataType :: oid

record RelationMessage =
  RelationID :: oid
  Namespace :: string
  RelationName :: string
  Columns :: "RelationMessageColumn list"

text \<open>A column of a tuple: the kind byte (\<^verbatim>\<open>'n'\<close>, \<^verbatim>\<open>'u'\<close> or \<^verbatim>\<open>'t'\<close>) and the payload.\<close>

record TupleDataColumn =
  TDataType :: char
  Data :: bytes

text \<open>
  The implementations of the interface \<^verbatim>\<open>pglogrepl.Message\<close> that the two type switches
  name, each with the fields the program reads; \<open>OtherMessage\<close> stands for any other
  implementation. The version-1 relation message is \<open>RelationMessageV1\<close>, since
  \<open>RelationMessage\<close> names the record above.
\<close>

datatype Message =
    RelationMessageV1 RelationMessage
  | RelationMessageV2 RelationMessage
  | BeginMessage
  | CommitMessage LSN Time
  | InsertMessage oid "TupleDataColumn list"
  | InsertMessageV2 "32 word" oid "TupleDataColumn list"
  | UpdateMessage oid
  | UpdateMessageV2 "32 word" oid
  | DeleteMessage oid
  | DeleteMessageV2 "32 word" oid
  | TruncateMessage
  | TruncateMessageV2 "32 word"
  | TypeMessage
  | TypeMessageV2
  | OriginMessage
  | LogicalDecodingMessage string bytes
  | LogicalDecodingMessageV2 string bytes "32 word"
  | StreamStartMessageV2 "32 word" "8 word"
  | StreamStopMessageV2
  | StreamCommitMessageV2 "32 word"
  | StreamAbortMessageV2 "32 word"
  | OtherMessage

text \<open>How the process ends when it does not go on: \<^verbatim>\<open>log.Fatal*\<close> or a panic.\<close>

datatype stop =
    FatalParse string
  | FatalUnknownRelation oid
  | FatalDecodeColumn string
  | FatalApplyBatch string
  | FatalSendStandbyStatusUpdate string
  | FatalReceiveMessage string
  | FatalWALError
  | FatalParsePrimaryKeepalive string
  | FatalParseXLogData string
  | PanicIndexOutOfRange nat nat

fun isPanic :: "stop \<Rightarrow> bool" where
  "isPanic (PanicIndexOutOfRange i n) = True"
| "isPanic s = False"

text \<open>
  The lines written with \<^verbatim>\<open>log.Printf\<close>. \<open>LogCommitTook\<close> keeps the queue length of
  the line written by flush and leaves the measured duration out.
\<close>

datatype logEntry =
    LogCommitTook nat
  | LogUpdate "32 word"
  | LogDelete "32 word"
  | LogTruncate "32 word"
  | LogLogicalDecoding string bytes
  | LogLogicalDecodingV2 string bytes "32 word"
  | LogStreamStart "32 word" "8 word"
  | LogStreamStop
  | LogStreamCommit "32 word"
  | LogStreamAbort "32 word"
  | LogUnknownMessage
  | LogReceive
  | LogInsert string string "(string \<times> goValue) list"

subsection \<open>Library functions, as parameters\<close>

text \<open>
  \<open>TypeForOID\<close> is the lookup \<^verbatim>\<open>mi.TypeForOID(dataType)\<close> of the pgx type map; a found
  type is represented by its \<^verbatim>\<open>Codec.DecodeValue\<close> for the text format, which returns
  either a value or an error. \<open>ParseV2\<close> and \<open>Parse\<close> are the decoders of pglogrepl, \<open>Sanitize\<close> is
  \<^verbatim>\<open>pgx.Identifier.Sanitize\<close>.
\<close>

record lib =
  TypeForOID :: "oid \<Rightarrow> (bytes \<Rightarrow> string + goValue) option"
  ParseV2 :: "bytes \<Rightarrow> bool \<Rightarrow> string + Message"
  Parse :: "bytes \<Rightarrow> string + Message"
  Sanitize :: "string list \<Rightarrow> string"

subsection \<open>Decoding a text column\<close>

definition decodeTextColumnData :: "lib \<Rightarrow> bytes \<Rightarrow> oid \<Rightarrow> string + goValue" where
  "decodeTextColumnData mi data dataType =
     (case TypeForOID mi dataType of
        Some decodeValue \<Rightarrow> decodeValue data
      | None \<Rightarrow> Inr (VString data))"

subsection \<open>The apply context\<close>

record QueuedQuery =
  SQL :: string
  Arguments :: "goValue list"

text \<open>
  \<open>conn\<close> is the target connection, seen as the list of batches it has executed;
  \<open>timer\<close> is \<open>Some d\<close> while the timer is armed to fire at \<open>d\<close> and \<open>None\<close> once it is
  stopped or has fired. The field \<^verbatim>\<open>tx\<close> of the source is never used and is left out.
\<close>

record applyContext =
  conn :: "QueuedQuery list list"
  batch :: "QueuedQuery list"
  lastCommitTime :: Time
  commitLSN :: LSN
  commitTime :: Time
  txnInProgress :: bool
  timer :: "Time option"

text \<open>
  What one step of the apply goroutine reads from outside: \<open>now\<close>, the clock when the
  step runs (\<^verbatim>\<open>time.Since\<close>, \<^verbatim>\<open>timer.Reset\<close>); \<open>flushDone\<close>, the clock after
  \<^verbatim>\<open>SendBatch\<close> has returned; \<open>sendErr\<close>, the error of \<^verbatim>\<open>SendBatch(...).Close()\<close>.
\<close>

record env =
  now :: Time
  flushDone :: Time
  sendErr :: "string option"

definition originSetupSQL :: string where
  "originSetupSQL = ''select pg_replication_origin_xact_setup($1, $2)''"

definition originSetup :: "applyContext \<Rightarrow> QueuedQuery" where
  "originSetup a = \<lparr>SQL = originSetupSQL, Arguments = [VLSN (commitLSN a), VTime (commitTime a)]\<rparr>"

definition applyContext_queue :: "string \<Rightarrow> goValue list \<Rightarrow> applyContext \<Rightarrow> applyContext" where
  "applyContext_queue q args a = a\<lparr>batch := batch a @ [\<lparr>SQL = q, Arguments = args\<rparr>]\<rparr>"

definition applyContext_begin :: "applyContext \<Rightarrow> applyContext" where
  "applyContext_begin a = a\<lparr>txnInProgress := True, timer := None\<rparr>"

definition applyContext_flush :: "env \<Rightarrow> applyContext \<Rightarrow> stop + applyContext \<times> logEntry list" where
  "applyContext_flush e a =
     (if length (batch a) = 0 then Inr (a, [])
      else
        let sent = batch a @ [originSetup a] in
        case sendErr e of
          Some err \<Rightarrow> Inl (FatalApplyBatch err)
        | None \<Rightarrow>
            Inr (a\<lparr>conn := conn a @ [sent], batch := [], lastCommitTime := flushDone e\<rparr>,
                 [LogCommitTook (length sent)]))"

definition applyContext_commit ::
  "env \<Rightarrow> LSN \<Rightarrow> Time \<Rightarrow> applyContext \<Rightarrow> stop + applyContext \<times> logEntry list" where
  "applyContext_commit e lsn t a =
     (let a1 = a\<lparr>commitLSN := lsn, commitTime := t, txnInProgress := False\<rparr> in
      if now e - lastCommitTime a1 > 2 * second then applyContext_flush e a1
      else Inr (a1\<lparr>timer := Some (now e + 2 * second)\<rparr>, []))"

subsection \<open>Building the INSERT statement\<close>

text \<open>\<^verbatim>\<open>%d\<close> of \<^verbatim>\<open>fmt.Sprintf\<close> on a non-negative number.\<close>

definition digitChar :: "nat \<Rightarrow> char" where
  "digitChar d = char_of (48 + d)"

function showNat :: "nat \<Rightarrow> string" where
  "showNat n = (if n < 10 then [digitChar n] else showNat (n div 10) @ [digitChar (n mod 10)])"
  by pat_completeness auto
termination
  by (relation "measure id") auto

declare showNat.simps [simp del]

text \<open>
  The first loop of the insert case of \<^verbatim>\<open>processV2\<close>, over \<^verbatim>\<open>logicalMsg.Tuple.Columns\<close>
  from position \<open>idx\<close>: it reads \<^verbatim>\<open>rel.Columns[idx]\<close> (a panic when \<open>idx\<close> is out of
  range), appends the quoted column name to the query, then looks at the kind of the
  column. A kind other than \<^verbatim>\<open>'n'\<close>, \<^verbatim>\<open>'u'\<close>, \<^verbatim>\<open>'t'\<close> matches no case of the switch.
  The tuple of a decoded insert message is taken to be present (not a nil pointer).
\<close>

fun insertColumns ::
  "lib \<Rightarrow> RelationMessage \<Rightarrow> nat \<Rightarrow> TupleDataColumn list \<Rightarrow> string \<Rightarrow> goValue list
     \<Rightarrow> stop + string \<times> goValue list" where
  "insertColumns L rel idx [] query vals = Inr (query, vals)"
| "insertColumns L rel idx (col # cols) query vals =
     (if length (Columns rel) \<le> idx then Inl (PanicIndexOutOfRange idx (length (Columns rel)))
      else
        let colName = Sanitize L [Name (Columns rel ! idx)];
            query' = (if idx = 0 then query @ colName else query @ '', '' @ colName)
        in
          if TDataType col = CHR ''n'' then insertColumns L rel (idx + 1) cols query' (vals @ [VNil])
          else if TDataType col = CHR ''u'' then insertColumns L rel (idx + 1) cols query' vals
          else if TDataType col = CHR ''t'' then
            (case decodeTextColumnData L (Data col) (DataType (Columns rel ! idx)) of
               Inl err \<Rightarrow> Inl (FatalDecodeColumn err)
             | Inr val \<Rightarrow> insertColumns L rel (idx + 1) cols query' (vals @ [val]))
          else insertColumns L rel (idx + 1) cols query' vals)"

text \<open>The second loop: one placeholder \<^verbatim>\<open>$idx+1\<close> for each column of the tuple.\<close>

fun insertPlaceholders :: "nat \<Rightarrow> TupleDataColumn list \<Rightarrow> string \<Rightarrow> string" where
  "insertPlaceholders idx [] query = query"
| "insertPlaceholders idx (col # cols) query =
     insertPlaceholders (idx + 1) cols
       (if idx = 0 then query @ ''$'' @ showNat (idx + 1)
        else query @ '', $'' @ showNat (idx + 1))"

definition insertQuery ::
  "lib \<Rightarrow> RelationMessage \<Rightarrow> TupleDataColumn list \<Rightarrow> stop + string \<times> goValue list" where
  "insertQuery L rel cols =
     (case insertColumns L rel 0 cols
             (''INSERT INTO '' @ Sanitize L [Namespace rel, RelationName rel] @ ''('') [] of
        Inl x \<Rightarrow> Inl x
      | Inr (query, vals) \<Rightarrow>
          Inr (insertPlaceholders 0 cols (query @ '') overriding system value VALUES('') @ '')'',
               vals))"

subsection \<open>The apply goroutine\<close>

text \<open>
  The state the goroutine owns: the two relation maps, the flag \<^verbatim>\<open>inStream\<close>, the apply
  context, and the log lines written so far.
\<close>

record state =
  relations :: "oid \<Rightarrow> RelationMessage option"
  relationsV2 :: "oid \<Rightarrow> RelationMessage option"
  inStream :: bool
  applyCtx :: applyContext
  logged :: "logEntry list"

definition logPrintf :: "logEntry \<Rightarrow> state \<Rightarrow> state" where
  "logPrintf l s = s\<lparr>logged := logged s @ [l]\<rparr>"

definition withApply :: "state \<Rightarrow> stop + applyContext \<times> logEntry list \<Rightarrow> stop + state" where
  "withApply s r =
     (case r of
        Inl x \<Rightarrow> Inl x
      | Inr (a, ls) \<Rightarrow> Inr (s\<lparr>applyCtx := a, logged := logged s @ ls\<rparr>))"

text \<open>The type switch of \<^verbatim>\<open>processV2\<close>, case by case in the order of the source.\<close>

fun processV2_switch :: "lib \<Rightarrow> env \<Rightarrow> Message \<Rightarrow> state \<Rightarrow> stop + state" where
  "processV2_switch L e (RelationMessageV2 rel) s =
     Inr (s\<lparr>relationsV2 := (relationsV2 s)(RelationID rel \<mapsto> rel)\<rparr>)"
| "processV2_switch L e BeginMessage s =
     Inr (s\<lparr>applyCtx := applyContext_begin (applyCtx s)\<rparr>)"
| "processV2_switch L e (CommitMessage lsn t) s =
     withApply s (applyContext_commit e lsn t (applyCtx s))"
| "processV2_switch L e (InsertMessageV2 xid rid cols) s =
     (case relationsV2 s rid of
        None \<Rightarrow> Inl (FatalUnknownRelation rid)
      | Some rel \<Rightarrow>
          (case insertQuery L rel cols of
             Inl x \<Rightarrow> Inl x
           | Inr (query, vals) \<Rightarrow>
               Inr (s\<lparr>applyCtx := applyContext_queue query vals (applyCtx s)\<rparr>)))"
| "processV2_switch L e (UpdateMessageV2 xid rid) s = Inr (logPrintf (LogUpdate xid) s)"
| "processV2_switch L e (DeleteMessageV2 xid rid) s = Inr (logPrintf (LogDelete xid) s)"
| "processV2_switch L e (TruncateMessageV2 xid) s = Inr (logPrintf (LogTruncate xid) s)"
| "processV2_switch L e TypeMessageV2 s = Inr s"
| "processV2_switch L e OriginMessage s = Inr s"
| "processV2_switch L e (LogicalDecodingMessageV2 prefix content xid) s =
     Inr (logPrintf (LogLogicalDecodingV2 prefix content xid) s)"
| "processV2_switch L e (StreamStartMessageV2 xid firstSegment) s =
     Inr (logPrintf (LogStreamStart xid firstSegment) (s\<lparr>inStream := True\<rparr>))"
| "processV2_switch L e StreamStopMessageV2 s =
     Inr (logPrintf LogStreamStop (s\<lparr>inStream := False\<rparr>))"
| "processV2_switch L e (StreamCommitMessageV2 xid) s = Inr (logPrintf (LogStreamCommit xid) s)"
| "processV2_switch L e (StreamAbortMessageV2 xid) s = Inr (logPrintf (LogStreamAbort xid) s)"
| "processV2_switch L e logicalMsg s = Inr (logPrintf LogUnknownMessage s)"

definition processV2 :: "lib \<Rightarrow> env \<Rightarrow> bytes \<Rightarrow> state \<Rightarrow> stop + state" where
  "processV2 L e walData s =
     (case ParseV2 L walData (inStream s) of
        Inl err \<Rightarrow> Inl (FatalParse err)
      | Inr logicalMsg \<Rightarrow> processV2_switch L e logicalMsg s)"

text \<open>
  The loop of the insert case of \<^verbatim>\<open>processV1\<close>: the values are collected in a Go map
  from column name to value, here an association list with one entry for each key
  (\<open>AList.update\<close> replaces the entry of a key that is present); an unchanged-toast
  column adds nothing to it.
\<close>

fun insertValues ::
  "lib \<Rightarrow> RelationMessage \<Rightarrow> nat \<Rightarrow> TupleDataColumn list \<Rightarrow> (string \<times> goValue) list
     \<Rightarrow> stop + (string \<times> goValue) list" where
  "insertValues L rel idx [] vs = Inr vs"
| "insertValues L rel idx (col # cols) vs =
     (if length (Columns rel) \<le> idx then Inl (PanicIndexOutOfRange idx (length (Columns rel)))
      else
        let colName = Name (Columns rel ! idx) in
          if TDataType col = CHR ''n'' then
            insertValues L rel (idx + 1) cols (AList.update colName VNil vs)
          else if TDataType col = CHR ''u'' then insertValues L rel (idx + 1) cols vs
          else if TDataType col = CHR ''t'' then
            (case decodeTextColumnData L (Data col) (DataType (Columns rel ! idx)) of
               Inl err \<Rightarrow> Inl (FatalDecodeColumn err)
             | Inr val \<Rightarrow> insertValues L rel (idx + 1) cols (AList.update colName val vs))
          else insertValues L rel (idx + 1) cols vs)"

fun processV1_switch :: "lib \<Rightarrow> Message \<Rightarrow> state \<Rightarrow> stop + state" where
  "processV1_switch L (RelationMessageV1 rel) s =
     Inr (s\<lparr>relations := (relations s)(RelationID rel \<mapsto> rel)\<rparr>)"
| "processV1_switch L BeginMessage s = Inr s"
| "processV1_switch L (CommitMessage lsn t) s = Inr s"
| "processV1_switch L (InsertMessage rid cols) s =
     (case relations s rid of
        None \<Rightarrow> Inl (FatalUnknownRelation rid)
      | Some rel \<Rightarrow>
          (case insertValues L rel 0 cols [] of
             Inl x \<Rightarrow> Inl x
           | Inr vs \<Rightarrow> Inr (logPrintf (LogInsert (Namespace rel) (RelationName rel) vs) s)))"
| "processV1_switch L (UpdateMessage rid) s = Inr s"
| "processV1_switch L (DeleteMessage rid) s = Inr s"
| "processV1_switch L TruncateMessage s = Inr s"
| "processV1_switch L TypeMessage s = Inr s"
| "processV1_switch L OriginMessage s = Inr s"
| "processV1_switch L (LogicalDecodingMessage prefix content) s =
     Inr (logPrintf (LogLogicalDecoding prefix content) s)"
| "processV1_switch L (StreamStartMessageV2 xid firstSegment) s =
     Inr (logPrintf (LogStreamStart xid firstSegment) s)"
| "processV1_switch L StreamStopMessageV2 s = Inr (logPrintf LogStreamStop s)"
| "processV1_switch L (StreamCommitMessageV2 xid) s = Inr (logPrintf (LogStreamCommit xid) s)"
| "processV1_switch L (StreamAbortMessageV2 xid) s = Inr (logPrintf (LogStreamAbort xid) s)"
| "processV1_switch L logicalMsg s = Inr (logPrintf LogUnknownMessage s)"

definition processV1 :: "lib \<Rightarrow> bytes \<Rightarrow> state \<Rightarrow> stop + state" where
  "processV1 L walData s =
     (case Parse L walData of
        Inl err \<Rightarrow> Inl (FatalParse err)
      | Inr logicalMsg \<Rightarrow> processV1_switch L logicalMsg (logPrintf LogReceive s))"

text \<open>
  One turn of the \<^verbatim>\<open>select\<close> of the goroutine. \<open>TimerC\<close> is a receive from
  \<^verbatim>\<open>applyCtx.timer.C\<close>: it can be taken only when the timer is armed and its time has
  come, and it leaves the timer expired; a stopped timer delivers nothing, and an
  event that cannot be taken leaves the state as it is. \<open>WalData\<close>
  is a receive from \<^verbatim>\<open>walDataCh\<close>. \<open>v2\<close> is the variable of that name in \<^verbatim>\<open>main\<close>, which
  is true for the output plugin the program is compiled with.

  This is the behaviour of the timer channels of Go 1.23 and later, where nothing can
  be received from a timer after \<^verbatim>\<open>Stop\<close> or \<^verbatim>\<open>Reset\<close>. The buffered channels of earlier
  versions are modelled by \<open>applyStepBuffered\<close> below.
\<close>

datatype event = TimerC | WalData bytes

definition timerReady :: "env \<Rightarrow> state \<Rightarrow> bool" where
  "timerReady e s = (case timer (applyCtx s) of None \<Rightarrow> False | Some d \<Rightarrow> d \<le> now e)"

fun applyStep :: "lib \<Rightarrow> bool \<Rightarrow> env \<Rightarrow> event \<Rightarrow> state \<Rightarrow> stop + state" where
  "applyStep L v2 e TimerC s =
     (if timerReady e s
      then withApply s (applyContext_flush e ((applyCtx s)\<lparr>timer := None\<rparr>))
      else Inr s)"
| "applyStep L v2 e (WalData walData) s =
     (if v2 then processV2 L e walData s else processV1 L walData s)"

fun applyLoop :: "lib \<Rightarrow> bool \<Rightarrow> (env \<times> event) list \<Rightarrow> state \<Rightarrow> stop + state" where
  "applyLoop L v2 [] s = Inr s"
| "applyLoop L v2 ((e, ev) # rest) s =
     (case applyStep L v2 e ev s of
        Inl x \<Rightarrow> Inl x
      | Inr s' \<Rightarrow> applyLoop L v2 rest s')"

text \<open>The state \<^verbatim>\<open>main\<close> builds before it starts the goroutine, at clock \<open>start\<close>.\<close>

definition initialState :: "Time \<Rightarrow> state" where
  "initialState start =
     \<lparr>relations = Map.empty, relationsV2 = Map.empty, inStream = False,
      applyCtx = \<lparr>conn = [], batch = [], lastCommitTime = start, commitLSN = 0,
                  commitTime = zeroTime, txnInProgress = False,
                  timer = Some (start + 2 * second)\<rparr>,
      logged = []\<rparr>"

text \<open>
  The same goroutine with the timer channels of Go before 1.23 (and of later versions
  for a module that declares an earlier one). The channel has a buffer of one value:
  when the time of an armed timer has come, the runtime puts a tick in the buffer and
  the timer is expired. \<^verbatim>\<open>Stop\<close> and \<^verbatim>\<open>Reset\<close> do not empty the buffer, and neither
  \<^verbatim>\<open>begin\<close> nor \<^verbatim>\<open>commit\<close> drains the channel, so a tick delivered before them is still
  received afterwards. The state is paired with the content of the buffer.
\<close>

definition deliverTick :: "env \<Rightarrow> state \<times> bool \<Rightarrow> state \<times> bool" where
  "deliverTick e st =
     (case st of (s, tick) \<Rightarrow>
        (case timer (applyCtx s) of
           None \<Rightarrow> (s, tick)
         | Some d \<Rightarrow>
             if d \<le> now e then (s\<lparr>applyCtx := (applyCtx s)\<lparr>timer := None\<rparr>\<rparr>, True)
             else (s, tick)))"

fun applyStepBuffered ::
  "lib \<Rightarrow> bool \<Rightarrow> env \<Rightarrow> event \<Rightarrow> state \<times> bool \<Rightarrow> stop + state \<times> bool" where
  "applyStepBuffered L v2 e TimerC st =
     (case deliverTick e st of (s, tick) \<Rightarrow>
        if tick then
          (case withApply s (applyContext_flush e (applyCtx s)) of
             Inl x \<Rightarrow> Inl x
           | Inr s' \<Rightarrow> Inr (s', False))
        else Inr (s, tick))"
| "applyStepBuffered L v2 e (WalData walData) st =
     (case deliverTick e st of (s, tick) \<Rightarrow>
        (case (if v2 then processV2 L e walData s else processV1 L walData s) of
           Inl x \<Rightarrow> Inl x
         | Inr s' \<Rightarrow> Inr (s', tick)))"

fun applyLoopBuffered ::
  "lib \<Rightarrow> bool \<Rightarrow> (env \<times> event) list \<Rightarrow> state \<times> bool \<Rightarrow> stop + state \<times> bool" where
  "applyLoopBuffered L v2 [] st = Inr st"
| "applyLoopBuffered L v2 ((e, ev) # rest) st =
     (case applyStepBuffered L v2 e ev st of
        Inl x \<Rightarrow> Inl x
      | Inr st' \<Rightarrow> applyLoopBuffered L v2 rest st')"

subsection \<open>The receive loop of main\<close>

record PrimaryKeepaliveMessage =
  ServerWALEnd :: LSN
  ReplyRequested :: bool

record XLogData =
  WALStart :: LSN
  WALData :: bytes

text \<open>
  The constants and parsers of pglogrepl that the loop uses, as parameters: the two
  byte tags of a \<^verbatim>\<open>CopyData\<close> payload and the parsers of the two payloads.
\<close>

record wire =
  PrimaryKeepaliveMessageByteID :: char
  XLogDataByteID :: char
  ParsePrimaryKeepaliveMessage :: "bytes \<Rightarrow> string + PrimaryKeepaliveMessage"
  ParseXLogData :: "bytes \<Rightarrow> string + XLogData"

text \<open>What \<^verbatim>\<open>conn.ReceiveMessage\<close> returns within the deadline.\<close>

datatype received =
    ReceiveTimeout
  | ReceiveError string
  | ErrorResponse
  | CopyData bytes
  | UnexpectedMessage

text \<open>
  What one iteration reads from outside: the clock at the deadline test, the error of
  \<^verbatim>\<open>SendStandbyStatusUpdate\<close>, the clock after it, and the message received.
\<close>

record turn =
  clock :: Time
  statusErr :: "string option"
  clockAfterStatus :: Time
  rawMsg :: received

text \<open>
  The variables of the loop. \<open>walDataCh\<close> holds the payloads sent to the channel, in
  order; \<open>statusUpdates\<close> the positions reported to the server. The loop is compiled
  for the output plugin \<^verbatim>\<open>pgoutput\<close>, so the branch for \<^verbatim>\<open>wal2json\<close> is never taken. The
  log lines of this loop are left out.
\<close>

record consumer =
  clientXLogPos :: LSN
  nextStandbyMessageDeadline :: Time
  walDataCh :: "bytes list"
  statusUpdates :: "LSN list"

definition standbyMessageTimeout :: int where
  "standbyMessageTimeout = 10 * second"

definition sendStatusIfDue :: "turn \<Rightarrow> consumer \<Rightarrow> stop + consumer" where
  "sendStatusIfDue t c =
     (if clock t > nextStandbyMessageDeadline c then
        (case statusErr t of
           Some err \<Rightarrow> Inl (FatalSendStandbyStatusUpdate err)
         | None \<Rightarrow>
             Inr (c\<lparr>statusUpdates := statusUpdates c @ [clientXLogPos c],
                    nextStandbyMessageDeadline := clockAfterStatus t + standbyMessageTimeout\<rparr>))
      else Inr c)"

definition onKeepalive :: "PrimaryKeepaliveMessage \<Rightarrow> consumer \<Rightarrow> consumer" where
  "onKeepalive pkm c =
     (let c1 = (if ServerWALEnd pkm > clientXLogPos c
                then c\<lparr>clientXLogPos := ServerWALEnd pkm\<rparr> else c)
      in if ReplyRequested pkm then c1\<lparr>nextStandbyMessageDeadline := zeroTime\<rparr> else c1)"

definition onXLogData :: "XLogData \<Rightarrow> consumer \<Rightarrow> consumer" where
  "onXLogData xld c =
     (let c1 = c\<lparr>walDataCh := walDataCh c @ [WALData xld]\<rparr>
      in if WALStart xld > clientXLogPos c1 then c1\<lparr>clientXLogPos := WALStart xld\<rparr> else c1)"

fun onMessage :: "wire \<Rightarrow> received \<Rightarrow> consumer \<Rightarrow> stop + consumer" where
  "onMessage W ReceiveTimeout c = Inr c"
| "onMessage W (ReceiveError err) c = Inl (FatalReceiveMessage err)"
| "onMessage W ErrorResponse c = Inl FatalWALError"
| "onMessage W UnexpectedMessage c = Inr c"
| "onMessage W (CopyData []) c = Inl (PanicIndexOutOfRange 0 0)"
| "onMessage W (CopyData (tag # rest)) c =
     (if tag = PrimaryKeepaliveMessageByteID W then
        (case ParsePrimaryKeepaliveMessage W rest of
           Inl err \<Rightarrow> Inl (FatalParsePrimaryKeepalive err)
         | Inr pkm \<Rightarrow> Inr (onKeepalive pkm c))
      else if tag = XLogDataByteID W then
        (case ParseXLogData W rest of
           Inl err \<Rightarrow> Inl (FatalParseXLogData err)
         | Inr xld \<Rightarrow> Inr (onXLogData xld c))
      else Inr c)"

definition receiveStep :: "wire \<Rightarrow> turn \<Rightarrow> consumer \<Rightarrow> stop + consumer" where
  "receiveStep W t c =
     (case sendStatusIfDue t c of
        Inl x \<Rightarrow> Inl x
      | Inr c1 \<Rightarrow> onMessage W (rawMsg t) c1)"

fun receiveLoop :: "wire \<Rightarrow> turn list \<Rightarrow> consumer \<Rightarrow> stop + consumer" where
  "receiveLoop W [] c = Inr c"
| "receiveLoop W (t # ts) c =
     (case receiveStep W t c of
        Inl x \<Rightarrow> Inl x
      | Inr c' \<Rightarrow> receiveLoop W ts c')"

subsection \<open>Which messages the switch of processV2 names\<close>

fun recognizedV2 :: "Message \<Rightarrow> bool" where
  "recognizedV2 (RelationMessageV1 rel) = False"
| "recognizedV2 (InsertMessage rid cols) = False"
| "recognizedV2 (UpdateMessage rid) = False"
| "recognizedV2 (DeleteMessage rid) = False"
| "recognizedV2 TruncateMessage = False"
| "recognizedV2 TypeMessage = False"
| "recognizedV2 (LogicalDecodingMessage prefix content) = False"
| "recognizedV2 OtherMessage = False"
| "recognizedV2 logicalMsg = True"

section \<open>Example instances\<close>

text \<open>
  Concrete library functions and inputs on which the model is run. \<open>pgxSanitize\<close> quotes
  an identifier the way pgx does: each part between double quotes, with a double quote
  inside doubled and NUL bytes dropped, the parts joined by a dot. The example type map
  knows one type, \<^verbatim>\<open>int4\<close> (OID 23), whose decoder accepts decimal digits. The example
  parser looks the payload and the streaming flag up in a table.
\<close>

definition quoteIdentifier :: "string \<Rightarrow> string" where
  "quoteIdentifier p =
     [CHR 0x22]
     @ concat (map (\<lambda>ch. if ch = CHR 0x22 then [CHR 0x22, CHR 0x22] else [ch])
                   (filter (\<lambda>ch. ch \<noteq> CHR 0x00) p))
     @ [CHR 0x22]"

fun joinDot :: "string list \<Rightarrow> string" where
  "joinDot [] = []"
| "joinDot [p] = p"
| "joinDot (p # ps) = p @ ''.'' @ joinDot ps"

definition pgxSanitize :: "string list \<Rightarrow> string" where
  "pgxSanitize ident = joinDot (map quoteIdentifier ident)"

fun digitsValue :: "string \<Rightarrow> int \<Rightarrow> int option" where
  "digitsValue [] acc = Some acc"
| "digitsValue (ch # rest) acc =
     (if (48::nat) \<le> of_char ch \<and> of_char ch \<le> (57::nat)
      then digitsValue rest (10 * acc + (of_char ch - 48))
      else None)"

definition decodeInt4 :: "bytes \<Rightarrow> string + goValue" where
  "decodeInt4 data =
     (if data = [] then Inl ''invalid syntax''
      else case digitsValue data 0 of None \<Rightarrow> Inl ''invalid syntax'' | Some v \<Rightarrow> Inr (VInt v))"

definition exampleTypes :: "oid \<Rightarrow> (bytes \<Rightarrow> string + goValue) option" where
  "exampleTypes t = (if t = 23 then Some decodeInt4 else None)"

definition exampleLib :: "((bytes \<times> bool) \<times> Message) list \<Rightarrow> lib" where
  "exampleLib tbl =
     \<lparr>TypeForOID = exampleTypes,
      ParseV2 = (\<lambda>walData flag. case map_of tbl (walData, flag) of
                   Some m \<Rightarrow> Inr m | None \<Rightarrow> Inl ''message type not supported''),
      Parse = (\<lambda>walData. case map_of tbl (walData, False) of
                   Some m \<Rightarrow> Inr m | None \<Rightarrow> Inl ''message type not supported''),
      Sanitize = pgxSanitize\<rparr>"

definition exampleRelation :: RelationMessage where
  "exampleRelation =
     \<lparr>RelationID = 1, Namespace = ''public'', RelationName = ''t'',
      Columns = [\<lparr>Name = ''id'', DataType = 23\<rparr>, \<lparr>Name = ''big'', DataType = 25\<rparr>]\<rparr>"

definition atTime :: "Time \<Rightarrow> env" where
  "atTime n = \<lparr>now = n, flushDone = n, sendErr = None\<rparr>"

definition toastInsert :: "TupleDataColumn list" where
  "toastInsert = [\<lparr>TDataType = CHR ''t'', Data = ''1''\<rparr>, \<lparr>TDataType = CHR ''u'', Data = []\<rparr>]"

definition streamTable :: "((bytes \<times> bool) \<times> Message) list" where
  "streamTable =
     [((''R'', False), RelationMessageV2 exampleRelation),
      ((''S'', False), StreamStartMessageV2 7 1),
      ((''I'', True), InsertMessageV2 7 1 [\<lparr>TDataType = CHR ''t'', Data = ''1''\<rparr>, \<lparr>TDataType = CHR ''n'', Data = []\<rparr>]),
      ((''E'', True), StreamStopMessageV2),
      ((''B'', False), BeginMessage),
      ((''C'', False), CommitMessage 100 5),
      ((''J'', False), InsertMessageV2 0 1 toastInsert),
      ((''U'', False), UpdateMessageV2 0 9)]"

definition exampleWire :: wire where
  "exampleWire =
     \<lparr>PrimaryKeepaliveMessageByteID = CHR ''k'', XLogDataByteID = CHR ''w'',
      ParsePrimaryKeepaliveMessage =
        (\<lambda>d. case d of [p, r] \<Rightarrow> Inr \<lparr>ServerWALEnd = of_nat (of_char p), ReplyRequested = (r = CHR ''1'')\<rparr>
                 | _ \<Rightarrow> Inl ''bad keepalive''),
      ParseXLogData =
        (\<lambda>d. case d of p # walData \<Rightarrow> Inr \<lparr>WALStart = of_nat (of_char p), WALData = walData\<rparr>
                 | [] \<Rightarrow> Inl ''bad xlogdata'')\<rparr>"

definition exampleConsumer :: consumer where
  "exampleConsumer =
     \<lparr>clientXLogPos = 66, nextStandbyMessageDeadline = 10 * second, walDataCh = [],
      statusUpdates = []\<rparr>"

definition quiet :: "received \<Rightarrow> turn" where
  "quiet m = \<lparr>clock = second, statusErr = None, clockAfterStatus = second, rawMsg = m\<rparr>"



definition wideTuple :: "TupleDataColumn list" where
  "wideTuple = [\<lparr>TDataType = CHR ''t'', Data = ''1''\<rparr>, \<lparr>TDataType = CHR ''n'', Data = []\<rparr>,
                \<lparr>TDataType = CHR ''n'', Data = []\<rparr>]"

definition badWideTuple :: "TupleDataColumn list" where
  "badWideTuple = [\<lparr>TDataType = CHR ''t'', Data = ''abc''\<rparr>, \<lparr>TDataType = CHR ''n'', Data = []\<rparr>,
                   \<lparr>TDataType = CHR ''n'', Data = []\<rparr>]"

definition insertTable :: "((bytes \<times> bool) \<times> Message) list" where
  "insertTable =
     [((''w'', False), InsertMessageV2 0 1 wideTuple),
      ((''b'', False), InsertMessageV2 0 1 badWideTuple),
      ((''u'', False), InsertMessageV2 0 1 toastInsert),
      ((''W'', False), InsertMessage 1 wideTuple),
      ((''B'', False), InsertMessage 1 badWideTuple),
      ((''U'', False), InsertMessage 1 toastInsert)]"

definition withRelation :: state where
  "withRelation =
     (initialState 0)\<lparr>relations := [1 \<mapsto> exampleRelation], relationsV2 := [1 \<mapsto> exampleRelation]\<rparr>"

definition streamedTrace :: "(env \<times> event) list" where
  "streamedTrace =
     [(atTime second, WalData ''R''), (atTime second, WalData ''S''),
      (atTime second, WalData ''I''), (atTime second, WalData ''E'')]"

definition plainTable :: "((bytes \<times> bool) \<times> Message) list" where
  "plainTable =
     [((''R'', False), RelationMessageV2 exampleRelation),
      ((''B'', False), BeginMessage),
      ((''K'', False),
       InsertMessageV2 0 1 [\<lparr>TDataType = CHR ''t'', Data = ''1''\<rparr>, \<lparr>TDataType = CHR ''n'', Data = []\<rparr>]),
      ((''C'', False), CommitMessage 100 5)]"

definition lateBeginTrace :: "(env \<times> event) list" where
  "lateBeginTrace =
     [(atTime second, WalData ''R''), (atTime (3 * second), WalData ''B''),
      (atTime (3 * second), WalData ''K''), (atTime (3 * second), TimerC)]"

section \<open>Notions used to state the properties\<close>

text \<open>
  The results of the decodes made along a run of the goroutine with \<open>v2\<close> true, in
  order: one for each payload taken from the channel, up to the step that ends the
  process.
\<close>

fun decodedAlong :: "lib \<Rightarrow> (env \<times> event) list \<Rightarrow> state \<Rightarrow> (string + Message) list" where
  "decodedAlong L [] s = []"
| "decodedAlong L ((e, TimerC) # rest) s =
     (case applyStep L True e TimerC s of
        Inl x \<Rightarrow> []
      | Inr s' \<Rightarrow> decodedAlong L rest s')"
| "decodedAlong L ((e, WalData walData) # rest) s =
     ParseV2 L walData (inStream s) #
       (case applyStep L True e (WalData walData) s of
          Inl x \<Rightarrow> []
        | Inr s' \<Rightarrow> decodedAlong L rest s')"

fun isCommit :: "string + Message \<Rightarrow> bool" where
  "isCommit (Inr (CommitMessage lsn t)) = True"
| "isCommit r = False"

text \<open>While a transaction is in progress the timer is stopped.\<close>

definition timerStoppedInTxn :: "applyContext \<Rightarrow> bool" where
  "timerStoppedInTxn a = (if txnInProgress a then timer a = None else True)"

section \<open>The tracked replication position\<close>

lemma onMessage_mono: "onMessage W m c = Inr c' \<Longrightarrow> clientXLogPos c \<le> clientXLogPos c'"
  by (induction W m c rule: onMessage.induct)
     (auto simp: onKeepalive_def onXLogData_def Let_def split: sum.splits if_splits)

lemma sendStatusIfDue_pos: "sendStatusIfDue t c = Inr c1 \<Longrightarrow> clientXLogPos c1 = clientXLogPos c"
  by (auto simp: sendStatusIfDue_def split: if_splits option.splits)

lemma receiveStep_mono: "receiveStep W t c = Inr c' \<Longrightarrow> clientXLogPos c \<le> clientXLogPos c'"
  by (auto simp: receiveStep_def split: sum.splits dest!: sendStatusIfDue_pos onMessage_mono)

lemma receiveLoop_mono: "receiveLoop W ts c = Inr c' \<Longrightarrow> clientXLogPos c \<le> clientXLogPos c'"
proof (induction ts arbitrary: c)
  case Nil then show ?case by simp
next
  case (Cons t ts)
  then obtain c1 where s: "receiveStep W t c = Inr c1" and r: "receiveLoop W ts c1 = Inr c'"
    by (auto split: sum.splits)
  from receiveStep_mono[OF s] Cons.IH[OF r] show ?case by simp
qed

lemma onMessage_advance:
  "onMessage W m c = Inr c' \<Longrightarrow> clientXLogPos c' \<noteq> clientXLogPos c \<Longrightarrow>
     (\<exists>rest pkm. m = CopyData (PrimaryKeepaliveMessageByteID W # rest)
          \<and> ParsePrimaryKeepaliveMessage W rest = Inr pkm
          \<and> clientXLogPos c < ServerWALEnd pkm \<and> clientXLogPos c' = ServerWALEnd pkm)
   \<or> (\<exists>rest xld. m = CopyData (XLogDataByteID W # rest)
          \<and> ParseXLogData W rest = Inr xld
          \<and> clientXLogPos c < WALStart xld \<and> clientXLogPos c' = WALStart xld)"
  by (induction W m c rule: onMessage.induct)
     (auto simp: onKeepalive_def onXLogData_def Let_def split: sum.splits if_splits)

lemma receiveStep_advance:
  assumes "receiveStep W t c = Inr c'" "clientXLogPos c' \<noteq> clientXLogPos c"
  shows "(\<exists>rest pkm. rawMsg t = CopyData (PrimaryKeepaliveMessageByteID W # rest)
          \<and> ParsePrimaryKeepaliveMessage W rest = Inr pkm
          \<and> clientXLogPos c < ServerWALEnd pkm \<and> clientXLogPos c' = ServerWALEnd pkm)
   \<or> (\<exists>rest xld. rawMsg t = CopyData (XLogDataByteID W # rest)
          \<and> ParseXLogData W rest = Inr xld
          \<and> clientXLogPos c < WALStart xld \<and> clientXLogPos c' = WALStart xld)"
proof -
  from assms(1) obtain c1 where a: "sendStatusIfDue t c = Inr c1" and b: "onMessage W (rawMsg t) c1 = Inr c'"
    by (auto simp: receiveStep_def split: sum.splits)
  from sendStatusIfDue_pos[OF a] have p: "clientXLogPos c1 = clientXLogPos c" .
  with assms(2) have "clientXLogPos c' \<noteq> clientXLogPos c1" by simp
  from onMessage_advance[OF b this] show ?thesis unfolding p .
qed

lemma receiveStep_stale_keepalive:
  assumes "rawMsg t = CopyData (PrimaryKeepaliveMessageByteID W # rest)"
    "ParsePrimaryKeepaliveMessage W rest = Inr pkm"
    "ServerWALEnd pkm \<le> clientXLogPos c" "receiveStep W t c = Inr c'"
  shows "clientXLogPos c' = clientXLogPos c"
proof -
  from assms(4) obtain c1 where a: "sendStatusIfDue t c = Inr c1" and b: "onMessage W (rawMsg t) c1 = Inr c'"
    by (auto simp: receiveStep_def split: sum.splits)
  from sendStatusIfDue_pos[OF a] have p: "clientXLogPos c1 = clientXLogPos c" .
  from b assms(1,2,3) p show ?thesis
    by (auto simp: onKeepalive_def Let_def split: if_splits)
qed


text \<open>
  C3. Across any sequence of received messages the tracked position never decreases.
  One iteration changes it only on a keepalive whose server WAL end, or a data message
  whose WAL start, is strictly greater than the tracked position, and then to
  that value; a keepalive whose server WAL end is not above the tracked position
  leaves it unchanged.
\<close>

theorem tracked_position_monotone:
  "(receiveLoop W ts c = Inr c' \<longrightarrow> clientXLogPos c \<le> clientXLogPos c')
   \<and> (receiveStep W t a = Inr a' \<longrightarrow> clientXLogPos a' \<noteq> clientXLogPos a \<longrightarrow>
        (\<exists>rest pkm. rawMsg t = CopyData (PrimaryKeepaliveMessageByteID W # rest)
            \<and> ParsePrimaryKeepaliveMessage W rest = Inr pkm
            \<and> clientXLogPos a < ServerWALEnd pkm \<and> clientXLogPos a' = ServerWALEnd pkm)
      \<or> (\<exists>rest xld. rawMsg t = CopyData (XLogDataByteID W # rest)
            \<and> ParseXLogData W rest = Inr xld
            \<and> clientXLogPos a < WALStart xld \<and> clientXLogPos a' = WALStart xld))
   \<and> (rawMsg k = CopyData (PrimaryKeepaliveMessageByteID W # payload) \<longrightarrow>
        ParsePrimaryKeepaliveMessage W payload = Inr ka \<longrightarrow>
        ServerWALEnd ka \<le> clientXLogPos b \<longrightarrow>
        receiveStep W k b = Inr b' \<longrightarrow> clientXLogPos b' = clientXLogPos b)"
  using receiveLoop_mono receiveStep_advance receiveStep_stale_keepalive by blast

theorem tracked_position_monotone_witness:
  "receiveLoop exampleWire
       [quiet (CopyData ''kA0''), quiet (CopyData ''wDxyz''), quiet (CopyData ''kC1'')]
       exampleConsumer
     = Inr \<lparr>clientXLogPos = 68, nextStandbyMessageDeadline = zeroTime,
            walDataCh = [''xyz''], statusUpdates = []\<rparr>
   \<and> clientXLogPos exampleConsumer = 66
   \<and> receiveStep exampleWire (quiet (CopyData ''wDxyz'')) exampleConsumer
     = Inr \<lparr>clientXLogPos = 68, nextStandbyMessageDeadline = 10 * second,
            walDataCh = [''xyz''], statusUpdates = []\<rparr>
   \<and> ParseXLogData exampleWire ''Dxyz'' = Inr \<lparr>WALStart = 68, WALData = ''xyz''\<rparr>
   \<and> ParsePrimaryKeepaliveMessage exampleWire ''A0''
     = Inr \<lparr>ServerWALEnd = 65, ReplyRequested = False\<rparr>
   \<and> receiveStep exampleWire (quiet (CopyData ''kA0'')) exampleConsumer = Inr exampleConsumer"
proof -
  have h1: "receiveLoop exampleWire
       [quiet (CopyData ''kA0''), quiet (CopyData ''wDxyz''), quiet (CopyData ''kC1'')]
       exampleConsumer
     = Inr \<lparr>clientXLogPos = 68, nextStandbyMessageDeadline = zeroTime,
            walDataCh = [''xyz''], statusUpdates = []\<rparr>"
    by code_simp
  have h2: "receiveStep exampleWire (quiet (CopyData ''wDxyz'')) exampleConsumer
     = Inr \<lparr>clientXLogPos = 68, nextStandbyMessageDeadline = 10 * second,
            walDataCh = [''xyz''], statusUpdates = []\<rparr>"
    by code_simp
  have h3: "rawMsg (quiet (CopyData ''kA0''))
       = CopyData (PrimaryKeepaliveMessageByteID exampleWire # ''A0'')"
    by code_simp
  have h4: "ParsePrimaryKeepaliveMessage exampleWire ''A0''
     = Inr \<lparr>ServerWALEnd = 65, ReplyRequested = False\<rparr>"
    by code_simp
  have h5: "receiveStep exampleWire (quiet (CopyData ''kA0'')) exampleConsumer = Inr exampleConsumer"
    by code_simp
  have h6: "ParseXLogData exampleWire ''Dxyz'' = Inr \<lparr>WALStart = 68, WALData = ''xyz''\<rparr>"
    by code_simp
  have h7: "clientXLogPos exampleConsumer = 66"
    by (simp add: exampleConsumer_def)
  show ?thesis
    using h1 h2 h3 h4 h5 h6 h7
      tracked_position_monotone
        [of exampleWire
            "[quiet (CopyData ''kA0''), quiet (CopyData ''wDxyz''), quiet (CopyData ''kC1'')]"
            exampleConsumer
            "\<lparr>clientXLogPos = 68, nextStandbyMessageDeadline = zeroTime,
              walDataCh = [''xyz''], statusUpdates = []\<rparr>"
            "quiet (CopyData ''wDxyz'')" exampleConsumer
            "\<lparr>clientXLogPos = 68, nextStandbyMessageDeadline = 10 * second,
              walDataCh = [''xyz''], statusUpdates = []\<rparr>"
            "quiet (CopyData ''kA0'')" "''A0''"
            "\<lparr>ServerWALEnd = 65, ReplyRequested = False\<rparr>" exampleConsumer exampleConsumer]
    by simp
qed

section \<open>Decoding a text column\<close>

text \<open>
  C8. A text column whose type ID has no decoder in the type map decodes to the raw
  text, unmodified, and no error is raised; when the type map has a decoder, the result
  is what that decoder returns for the text.
\<close>

theorem text_column_decoding:
  "(TypeForOID mi dataType = None \<longrightarrow>
      decodeTextColumnData mi data dataType = Inr (VString data))
   \<and> (TypeForOID mi typeID = Some decodeValue \<longrightarrow>
      decodeTextColumnData mi data typeID = decodeValue data)"
  by (simp add: decodeTextColumnData_def)

theorem text_column_decoding_witness:
  "TypeForOID (exampleLib []) 25 = None
   \<and> decodeTextColumnData (exampleLib []) ''42'' 25 = Inr (VString ''42'')
   \<and> TypeForOID (exampleLib []) 23 = Some decodeInt4
   \<and> decodeTextColumnData (exampleLib []) ''42'' 23 = Inr (VInt 42)"
proof -
  have h1: "TypeForOID (exampleLib []) 25 = None"
    by (simp add: exampleLib_def exampleTypes_def)
  have h2: "TypeForOID (exampleLib []) 23 = Some decodeInt4"
    by (simp add: exampleLib_def exampleTypes_def)
  have h3: "decodeInt4 ''42'' = Inr (VInt 42)"
    by code_simp
  show ?thesis
    using h1 h2 h3 text_column_decoding [of "exampleLib []" 25 "''42''" 23 decodeInt4]
    by simp
qed

section \<open>Parsed messages\<close>

lemma processV2_parsed:
  "ParseV2 L walData (inStream s) = Inr m \<Longrightarrow> processV2 L e walData s = processV2_switch L e m s"
  by (simp add: processV2_def)

lemma processV1_parsed:
  "Parse L walData = Inr m \<Longrightarrow> processV1 L walData s = processV1_switch L m (logPrintf LogReceive s)"
  by (simp add: processV1_def)

lemma unrecognized_switch:
  "\<not> recognizedV2 m \<Longrightarrow> processV2_switch L e m s = Inr (logPrintf LogUnknownMessage s)"
  by (cases m) simp_all

text \<open>
  C7. A message that was decoded and that the switch of processV2 does not name does
  not end the session: it is logged and skipped, and the relation maps, the apply
  context (with the pending batch) and the streaming flag stay as they were.
\<close>

theorem unknown_message_skipped:
  "\<not> recognizedV2 m \<longrightarrow> ParseV2 L walData (inStream s) = Inr m \<longrightarrow>
     (\<exists>s'. processV2 L e walData s = Inr s'
        \<and> relationsV2 s' = relationsV2 s \<and> relations s' = relations s
        \<and> applyCtx s' = applyCtx s \<and> inStream s' = inStream s
        \<and> logged s' = logged s @ [LogUnknownMessage])"
  by (simp add: processV2_parsed unrecognized_switch logPrintf_def)

theorem unknown_message_skipped_witness:
  "\<not> recognizedV2 OtherMessage
   \<and> ParseV2 (exampleLib [((''?'', False), OtherMessage)]) ''?'' (inStream (initialState 0)) = Inr OtherMessage
   \<and> (\<exists>s'. processV2 (exampleLib [((''?'', False), OtherMessage)]) (atTime second) ''?'' (initialState 0) = Inr s'
        \<and> relationsV2 s' = relationsV2 (initialState 0) \<and> relations s' = relations (initialState 0)
        \<and> applyCtx s' = applyCtx (initialState 0) \<and> inStream s' = inStream (initialState 0)
        \<and> logged s' = logged (initialState 0) @ [LogUnknownMessage])"
proof -
  have h1: "\<not> recognizedV2 OtherMessage" by simp
  have h2: "ParseV2 (exampleLib [((''?'', False), OtherMessage)]) ''?'' (inStream (initialState 0)) = Inr OtherMessage"
    by (simp add: exampleLib_def initialState_def)
  show ?thesis
    using h1 h2 unknown_message_skipped [of OtherMessage "exampleLib [((''?'', False), OtherMessage)]" "''?''" "initialState 0" "atTime second"]
    by blast
qed

section \<open>Row events for an unknown relation\<close>

text \<open>
  An update event for a relation that is not in the relation map is not fatal: the
  relation map is not consulted, the event is logged and processing goes on.
\<close>

theorem unknown_relation_update_not_fatal:
  "relationsV2 (initialState 0) 9 = None
   \<and> ParseV2 (exampleLib streamTable) ''U'' (inStream (initialState 0)) = Inr (UpdateMessageV2 0 9)
   \<and> processV2 (exampleLib streamTable) (atTime second) ''U'' (initialState 0)
       = Inr (logPrintf (LogUpdate 0) (initialState 0))"
  by (simp add: processV2_def exampleLib_def streamTable_def initialState_def)

text \<open>
  C6, amended. An insert event whose relation ID has no entry in the relation map is
  fatal, in processV2 and in processV1: the tuple is not interpreted and the process
  exits. Update, delete and truncate events are logged by processV2 without a lookup in
  the relation map, whether the relation is known or not.
\<close>

theorem unknown_relation_insert_fatal:
  "(relationsV2 s rid = None \<longrightarrow> ParseV2 L walData (inStream s) = Inr (InsertMessageV2 xid rid cols) \<longrightarrow>
      processV2 L e walData s = Inl (FatalUnknownRelation rid))
   \<and> (relations s1 rid1 = None \<longrightarrow> Parse L1 walData1 = Inr (InsertMessage rid1 cols1) \<longrightarrow>
      processV1 L1 walData1 s1 = Inl (FatalUnknownRelation rid1))
   \<and> (ParseV2 L2 walData2 (inStream s2) = Inr (UpdateMessageV2 xid2 rid2) \<longrightarrow>
      processV2 L2 e2 walData2 s2 = Inr (logPrintf (LogUpdate xid2) s2))
   \<and> (ParseV2 L3 walData3 (inStream s3) = Inr (DeleteMessageV2 xid3 rid3) \<longrightarrow>
      processV2 L3 e3 walData3 s3 = Inr (logPrintf (LogDelete xid3) s3))
   \<and> (ParseV2 L4 walData4 (inStream s4) = Inr (TruncateMessageV2 xid4) \<longrightarrow>
      processV2 L4 e4 walData4 s4 = Inr (logPrintf (LogTruncate xid4) s4))"
  by (simp add: processV2_parsed processV1_parsed logPrintf_def)

theorem unknown_relation_insert_fatal_witness:
  "relationsV2 (initialState 0) 1 = None
   \<and> ParseV2 (exampleLib streamTable) ''J'' (inStream (initialState 0)) = Inr (InsertMessageV2 0 1 toastInsert)
   \<and> processV2 (exampleLib streamTable) (atTime second) ''J'' (initialState 0) = Inl (FatalUnknownRelation 1)
   \<and> relations (initialState 0) 1 = None
   \<and> Parse (exampleLib [((''i'', False), InsertMessage 1 toastInsert)]) ''i'' = Inr (InsertMessage 1 toastInsert)
   \<and> processV1 (exampleLib [((''i'', False), InsertMessage 1 toastInsert)]) ''i'' (initialState 0) = Inl (FatalUnknownRelation 1)
   \<and> ParseV2 (exampleLib streamTable) ''U'' (inStream (initialState 0)) = Inr (UpdateMessageV2 0 9)
   \<and> processV2 (exampleLib streamTable) (atTime second) ''U'' (initialState 0) = Inr (logPrintf (LogUpdate 0) (initialState 0))
   \<and> ParseV2 (exampleLib [((''D'', False), DeleteMessageV2 0 9)]) ''D'' (inStream (initialState 0)) = Inr (DeleteMessageV2 0 9)
   \<and> processV2 (exampleLib [((''D'', False), DeleteMessageV2 0 9)]) (atTime second) ''D'' (initialState 0) = Inr (logPrintf (LogDelete 0) (initialState 0))
   \<and> ParseV2 (exampleLib [((''T'', False), TruncateMessageV2 0)]) ''T'' (inStream (initialState 0)) = Inr (TruncateMessageV2 0)
   \<and> processV2 (exampleLib [((''T'', False), TruncateMessageV2 0)]) (atTime second) ''T'' (initialState 0) = Inr (logPrintf (LogTruncate 0) (initialState 0))"
proof -
  have h1: "relationsV2 (initialState 0) 1 = None" "relations (initialState 0) 1 = None"
    by (simp_all add: initialState_def)
  have h2: "ParseV2 (exampleLib streamTable) ''J'' (inStream (initialState 0)) = Inr (InsertMessageV2 0 1 toastInsert)"
    by (simp add: exampleLib_def streamTable_def initialState_def)
  have h3: "Parse (exampleLib [((''i'', False), InsertMessage 1 toastInsert)]) ''i'' = Inr (InsertMessage 1 toastInsert)"
    by (simp add: exampleLib_def)
  have h4: "ParseV2 (exampleLib streamTable) ''U'' (inStream (initialState 0)) = Inr (UpdateMessageV2 0 9)"
    by (simp add: exampleLib_def streamTable_def initialState_def)
  have h5: "ParseV2 (exampleLib [((''D'', False), DeleteMessageV2 0 9)]) ''D'' (inStream (initialState 0)) = Inr (DeleteMessageV2 0 9)"
    by (simp add: exampleLib_def initialState_def)
  have h6: "ParseV2 (exampleLib [((''T'', False), TruncateMessageV2 0)]) ''T'' (inStream (initialState 0)) = Inr (TruncateMessageV2 0)"
    by (simp add: exampleLib_def initialState_def)
  show ?thesis
    using h1 h2 h3 h4 h5 h6
      unknown_relation_insert_fatal [of "initialState 0" 1 "exampleLib streamTable" "''J''" 0 toastInsert "atTime second"
         "initialState 0" 1 "exampleLib [((''i'', False), InsertMessage 1 toastInsert)]" "''i''" toastInsert
         "exampleLib streamTable" "''U''" "initialState 0" 0 9 "atTime second"
         "exampleLib [((''D'', False), DeleteMessageV2 0 9)]" "''D''" "initialState 0" 0 9 "atTime second"
         "exampleLib [((''T'', False), TruncateMessageV2 0)]" "''T''" "initialState 0" 0 "atTime second"]
    by simp
qed


section \<open>The streaming flag\<close>

lemma decodeText_ParseV2_update [simp]:
  "decodeTextColumnData (L\<lparr>ParseV2 := p\<rparr>) d t = decodeTextColumnData L d t"
  by (simp add: decodeTextColumnData_def)

lemma insertColumns_ParseV2_update [simp]:
  "insertColumns (L\<lparr>ParseV2 := p\<rparr>) rel idx cols query vals = insertColumns L rel idx cols query vals"
  by (induction cols arbitrary: idx query vals) (simp_all add: Let_def split: sum.splits)

lemma insertQuery_ParseV2_update [simp]:
  "insertQuery (L\<lparr>ParseV2 := p\<rparr>) rel cols = insertQuery L rel cols"
  by (simp add: insertQuery_def)

lemma processV2_switch_ParseV2_update [simp]:
  "processV2_switch (L\<lparr>ParseV2 := p\<rparr>) e m s = processV2_switch L e m s"
  by (cases m) (simp_all split: option.splits)

lemma processV2_switch_inStream:
  "processV2_switch L e m s = Inr s' \<Longrightarrow>
     inStream s' = (case m of StreamStartMessageV2 xid fs \<Rightarrow> True | StreamStopMessageV2 \<Rightarrow> False | _ \<Rightarrow> inStream s)"
  by (cases m)
     (auto simp: logPrintf_def withApply_def split: option.splits sum.splits)

text \<open>
  C9. A stream-start message sets the streaming flag, a stream-stop message clears it,
  no other message changes it, and each decode is given the value the flag has at that
  moment: processV2 consults the parser only at the current flag.
\<close>

theorem streaming_flag:
  "(ParseV2 L walData (inStream s) = Inr (StreamStartMessageV2 xid firstSegment) \<longrightarrow>
      (\<exists>s'. processV2 L e walData s = Inr s' \<and> inStream s' = True))
   \<and> (ParseV2 L1 walData1 (inStream s1) = Inr StreamStopMessageV2 \<longrightarrow>
      (\<exists>s'. processV2 L1 e1 walData1 s1 = Inr s' \<and> inStream s' = False))
   \<and> (ParseV2 L2 walData2 (inStream s2) = Inr m \<longrightarrow> processV2 L2 e2 walData2 s2 = Inr s2' \<longrightarrow>
      inStream s2' = (case m of StreamStartMessageV2 x f \<Rightarrow> True | StreamStopMessageV2 \<Rightarrow> False
                      | _ \<Rightarrow> inStream s2))
   \<and> (p walData3 (inStream s3) = ParseV2 L3 walData3 (inStream s3) \<longrightarrow>
      processV2 (L3\<lparr>ParseV2 := p\<rparr>) e3 walData3 s3 = processV2 L3 e3 walData3 s3)"
proof (intro conjI impI)
  assume "ParseV2 L walData (inStream s) = Inr (StreamStartMessageV2 xid firstSegment)"
  then show "\<exists>s'. processV2 L e walData s = Inr s' \<and> inStream s' = True"
    by (simp add: processV2_parsed logPrintf_def)
next
  assume "ParseV2 L1 walData1 (inStream s1) = Inr StreamStopMessageV2"
  then show "\<exists>s'. processV2 L1 e1 walData1 s1 = Inr s' \<and> inStream s' = False"
    by (simp add: processV2_parsed logPrintf_def)
next
  assume a: "ParseV2 L2 walData2 (inStream s2) = Inr m" and b: "processV2 L2 e2 walData2 s2 = Inr s2'"
  from b have "processV2_switch L2 e2 m s2 = Inr s2'" by (simp add: processV2_parsed[OF a])
  then show "inStream s2' = (case m of StreamStartMessageV2 x f \<Rightarrow> True | StreamStopMessageV2 \<Rightarrow> False
                      | _ \<Rightarrow> inStream s2)" by (rule processV2_switch_inStream)
next
  assume "p walData3 (inStream s3) = ParseV2 L3 walData3 (inStream s3)"
  then show "processV2 (L3\<lparr>ParseV2 := p\<rparr>) e3 walData3 s3 = processV2 L3 e3 walData3 s3"
    by (simp add: processV2_def split: sum.splits)
qed

theorem streaming_flag_witness:
  "ParseV2 (exampleLib streamTable) ''S'' (inStream (initialState 0)) = Inr (StreamStartMessageV2 7 1)
   \<and> (\<exists>s'. processV2 (exampleLib streamTable) (atTime second) ''S'' (initialState 0) = Inr s' \<and> inStream s' = True)
   \<and> ParseV2 (exampleLib streamTable) ''E'' (inStream ((initialState 0)\<lparr>inStream := True\<rparr>)) = Inr StreamStopMessageV2
   \<and> (\<exists>s'. processV2 (exampleLib streamTable) (atTime second) ''E'' ((initialState 0)\<lparr>inStream := True\<rparr>) = Inr s' \<and> inStream s' = False)
   \<and> ParseV2 (exampleLib streamTable) ''B'' (inStream (initialState 0)) = Inr BeginMessage
   \<and> processV2 (exampleLib streamTable) (atTime second) ''B'' (initialState 0)
       = Inr ((initialState 0)\<lparr>applyCtx := applyContext_begin (applyCtx (initialState 0))\<rparr>)
   \<and> inStream ((initialState 0)\<lparr>applyCtx := applyContext_begin (applyCtx (initialState 0))\<rparr>) = False
   \<and> processV2 ((exampleLib streamTable)\<lparr>ParseV2 := (\<lambda>walData flag. if flag then Inl ''unused'' else ParseV2 (exampleLib streamTable) walData flag)\<rparr>)
         (atTime second) ''B'' (initialState 0)
       = processV2 (exampleLib streamTable) (atTime second) ''B'' (initialState 0)"
proof -
  have h1: "ParseV2 (exampleLib streamTable) ''S'' (inStream (initialState 0)) = Inr (StreamStartMessageV2 7 1)"
    by (simp add: exampleLib_def streamTable_def initialState_def)
  have h2: "ParseV2 (exampleLib streamTable) ''E'' (inStream ((initialState 0)\<lparr>inStream := True\<rparr>)) = Inr StreamStopMessageV2"
    by (simp add: exampleLib_def streamTable_def initialState_def)
  have h3: "ParseV2 (exampleLib streamTable) ''B'' (inStream (initialState 0)) = Inr BeginMessage"
    by (simp add: exampleLib_def streamTable_def initialState_def)
  have h4: "processV2 (exampleLib streamTable) (atTime second) ''B'' (initialState 0)
       = Inr ((initialState 0)\<lparr>applyCtx := applyContext_begin (applyCtx (initialState 0))\<rparr>)"
    by (simp add: processV2_parsed[OF h3])
  have h5: "(\<lambda>walData flag. if flag then Inl ''unused'' else ParseV2 (exampleLib streamTable) walData flag) ''B'' (inStream (initialState 0))
      = ParseV2 (exampleLib streamTable) ''B'' (inStream (initialState 0))"
    by (simp add: initialState_def)
  have h0: "inStream (initialState 0) = False"
    by (simp add: initialState_def)
  show ?thesis
    using h0 h1 h2 h3 h4 h5
      streaming_flag [of "exampleLib streamTable" "''S''" "initialState 0" 7 1 "atTime second"
        "exampleLib streamTable" "''E''" "(initialState 0)\<lparr>inStream := True\<rparr>" "atTime second"
        "exampleLib streamTable" "''B''" "initialState 0" BeginMessage "atTime second"
        "(initialState 0)\<lparr>applyCtx := applyContext_begin (applyCtx (initialState 0))\<rparr>"
        "(\<lambda>walData flag. if flag then Inl ''unused'' else ParseV2 (exampleLib streamTable) walData flag)"
        "''B''" "initialState 0" "exampleLib streamTable" "atTime second"]
    by simp
qed

section \<open>Flush and commit\<close>

lemma flush_empty: "batch a = [] \<Longrightarrow> applyContext_flush e a = Inr (a, [])"
  by (simp add: applyContext_flush_def)

lemma flush_sends:
  "batch a \<noteq> [] \<Longrightarrow> sendErr e = None \<Longrightarrow>
     applyContext_flush e a =
       Inr (a\<lparr>conn := conn a @ [batch a @ [originSetup a]], batch := [],
              lastCommitTime := flushDone e\<rparr>,
            [LogCommitTook (Suc (length (batch a)))])"
  by (simp add: applyContext_flush_def Let_def)

lemma flush_fails:
  "batch a \<noteq> [] \<Longrightarrow> sendErr e = Some err \<Longrightarrow> applyContext_flush e a = Inl (FatalApplyBatch err)"
  by (simp add: applyContext_flush_def Let_def)

text \<open>
  The three outcomes of a flush: nothing on an empty batch; on a non-empty batch, the
  queued operations followed by exactly one origin acknowledgment with the recorded
  position and timestamp, as the last operation of the group; the exit of the process
  when the target rejects the group.
\<close>

lemma flush_outcome:
  "(batch a = [] \<longrightarrow> applyContext_flush e a = Inr (a, []))
   \<and> (batch b \<noteq> [] \<longrightarrow> sendErr e1 = None \<longrightarrow>
        (\<exists>b' l. applyContext_flush e1 b = Inr (b', l)
           \<and> conn b' = conn b @ [batch b @
                 [\<lparr>SQL = originSetupSQL,
                   Arguments = [VLSN (commitLSN b), VTime (commitTime b)]\<rparr>]]
           \<and> batch b' = []))
   \<and> (batch c \<noteq> [] \<longrightarrow> sendErr e2 = Some err \<longrightarrow>
        applyContext_flush e2 c = Inl (FatalApplyBatch err))"
  by (simp add: flush_empty flush_sends flush_fails originSetup_def)

lemma flush_result:
  assumes "applyContext_flush e a = Inr (a', l)"
  shows "(batch a = [] \<and> a' = a \<and> l = []) \<or>
         (batch a \<noteq> [] \<and> sendErr e = None \<and>
          a' = a\<lparr>conn := conn a @ [batch a @ [originSetup a]], batch := [],
              lastCommitTime := flushDone e\<rparr>)"
  using assms by (auto simp: applyContext_flush_def Let_def split: if_splits option.splits)

lemma flush_keeps_marker:
  assumes "applyContext_flush e a = Inr (a', l)"
  shows "commitLSN a' = commitLSN a \<and> commitTime a' = commitTime a
         \<and> txnInProgress a' = txnInProgress a \<and> timer a' = timer a"
  using flush_result[OF assms] by auto

lemma commit_sets_marker:
  assumes "applyContext_commit e lsn t a = Inr (a', l)"
  shows "commitLSN a' = lsn \<and> commitTime a' = t \<and> txnInProgress a' = False"
proof (cases "now e - lastCommitTime a > 2 * second")
  case True
  with assms have "applyContext_flush e (a\<lparr>commitLSN := lsn, commitTime := t, txnInProgress := False\<rparr>) = Inr (a', l)"
    by (simp add: applyContext_commit_def Let_def)
  from flush_keeps_marker[OF this] show ?thesis by simp
next
  case False
  with assms show ?thesis by (auto simp: applyContext_commit_def Let_def)
qed

lemma withApply_Inr: "withApply s r = Inr s' \<Longrightarrow> \<exists>a l. r = Inr (a, l) \<and> s' = s\<lparr>applyCtx := a, logged := logged s @ l\<rparr>"
  by (auto simp: withApply_def split: sum.splits)

lemma processV1_switch_ctx:
  "processV1_switch L m s = Inr s' \<Longrightarrow> applyCtx s' = applyCtx s"
  by (cases m) (auto simp: logPrintf_def split: option.splits sum.splits)

lemma flush_lastCommitTime:
  "applyContext_flush e a = Inr (a', l) \<Longrightarrow>
     (conn a' = conn a \<and> lastCommitTime a' = lastCommitTime a)
     \<or> (conn a' = conn a @ [batch a @ [originSetup a]] \<and> lastCommitTime a' = flushDone e)"
  by (auto dest!: flush_result)



section \<open>Tuples wider than the relation\<close>

lemma insertColumns_wide:
  "idx \<le> length (Columns rel) \<Longrightarrow> length (Columns rel) < idx + length cols \<Longrightarrow>
     insertColumns L rel idx cols query vals
       = Inl (PanicIndexOutOfRange (length (Columns rel)) (length (Columns rel)))
     \<or> (\<exists>i err. idx + i < length (Columns rel) \<and> TDataType (cols ! i) = CHR ''t''
           \<and> decodeTextColumnData L (Data (cols ! i)) (DataType (Columns rel ! (idx + i))) = Inl err
           \<and> insertColumns L rel idx cols query vals = Inl (FatalDecodeColumn err))"
proof (induction cols arbitrary: idx query vals)
  case Nil
  then show ?case by simp
next
  case (Cons col cols)
  show ?case
  proof (cases "idx = length (Columns rel)")
    case True
    then show ?thesis by simp
  next
    case False
    with Cons.prems have lt: "idx < length (Columns rel)" by simp
    then have a: "Suc idx \<le> length (Columns rel)" by simp
    from Cons.prems have b: "length (Columns rel) < Suc idx + length cols" by simp
    define q' where "q' = (if idx = 0 then query @ Sanitize L [Name (Columns rel ! idx)]
                           else query @ '', '' @ Sanitize L [Name (Columns rel ! idx)])"
    have rec: "insertColumns L rel (Suc idx) cols q' w
       = Inl (PanicIndexOutOfRange (length (Columns rel)) (length (Columns rel)))
     \<or> (\<exists>i err. idx + Suc i < length (Columns rel) \<and> TDataType ((col # cols) ! Suc i) = CHR ''t''
           \<and> decodeTextColumnData L (Data ((col # cols) ! Suc i)) (DataType (Columns rel ! (idx + Suc i))) = Inl err
           \<and> insertColumns L rel (Suc idx) cols q' w = Inl (FatalDecodeColumn err))" for w
      using Cons.IH[OF a b, of q' w] by simp
    show ?thesis
    proof (cases "TDataType col = CHR ''t''")
      case t: True
      show ?thesis
      proof (cases "decodeTextColumnData L (Data col) (DataType (Columns rel ! idx))")
        case (Inl err)
        with t lt have "insertColumns L rel idx (col # cols) query vals = Inl (FatalDecodeColumn err)"
          by (simp add: Let_def)
        moreover from t lt Inl have "idx + 0 < length (Columns rel) \<and> TDataType ((col # cols) ! 0) = CHR ''t''
           \<and> decodeTextColumnData L (Data ((col # cols) ! 0)) (DataType (Columns rel ! (idx + 0))) = Inl err"
          by simp
        ultimately show ?thesis by blast
      next
        case (Inr val)
        with t lt have "insertColumns L rel idx (col # cols) query vals
            = insertColumns L rel (Suc idx) cols q' (vals @ [val])"
          by (simp add: Let_def q'_def)
        with rec[of "vals @ [val]"] show ?thesis by metis
      qed
    next
      case nt: False
      have "\<exists>w. insertColumns L rel idx (col # cols) query vals
            = insertColumns L rel (Suc idx) cols q' w"
      proof (cases "TDataType col = CHR ''n''")
        case True
        with lt have "insertColumns L rel idx (col # cols) query vals
            = insertColumns L rel (Suc idx) cols q' (vals @ [VNil])"
          by (simp add: Let_def q'_def)
        then show ?thesis by blast
      next
        case False
        with nt lt have "insertColumns L rel idx (col # cols) query vals
            = insertColumns L rel (Suc idx) cols q' vals"
          by (simp add: Let_def q'_def)
        then show ?thesis by blast
      qed
      then obtain w where "insertColumns L rel idx (col # cols) query vals
            = insertColumns L rel (Suc idx) cols q' w" by blast
      with rec[of w] show ?thesis by metis
    qed
  qed
qed

lemma insertValues_wide:
  "idx \<le> length (Columns rel) \<Longrightarrow> length (Columns rel) < idx + length cols \<Longrightarrow>
     insertValues L rel idx cols vs
       = Inl (PanicIndexOutOfRange (length (Columns rel)) (length (Columns rel)))
     \<or> (\<exists>i err. idx + i < length (Columns rel) \<and> TDataType (cols ! i) = CHR ''t''
           \<and> decodeTextColumnData L (Data (cols ! i)) (DataType (Columns rel ! (idx + i))) = Inl err
           \<and> insertValues L rel idx cols vs = Inl (FatalDecodeColumn err))"
proof (induction cols arbitrary: idx vs)
  case Nil
  then show ?case by simp
next
  case (Cons col cols)
  show ?case
  proof (cases "idx = length (Columns rel)")
    case True
    then show ?thesis by simp
  next
    case False
    with Cons.prems have lt: "idx < length (Columns rel)" by simp
    then have a: "Suc idx \<le> length (Columns rel)" by simp
    from Cons.prems have b: "length (Columns rel) < Suc idx + length cols" by simp
    have rec: "insertValues L rel (Suc idx) cols w
       = Inl (PanicIndexOutOfRange (length (Columns rel)) (length (Columns rel)))
     \<or> (\<exists>i err. idx + Suc i < length (Columns rel) \<and> TDataType ((col # cols) ! Suc i) = CHR ''t''
           \<and> decodeTextColumnData L (Data ((col # cols) ! Suc i)) (DataType (Columns rel ! (idx + Suc i))) = Inl err
           \<and> insertValues L rel (Suc idx) cols w = Inl (FatalDecodeColumn err))" for w
      using Cons.IH[OF a b, of w] by simp
    show ?thesis
    proof (cases "TDataType col = CHR ''t''")
      case t: True
      show ?thesis
      proof (cases "decodeTextColumnData L (Data col) (DataType (Columns rel ! idx))")
        case (Inl err)
        with t lt have "insertValues L rel idx (col # cols) vs = Inl (FatalDecodeColumn err)"
          by (simp add: Let_def)
        moreover from t lt Inl have "idx + 0 < length (Columns rel) \<and> TDataType ((col # cols) ! 0) = CHR ''t''
           \<and> decodeTextColumnData L (Data ((col # cols) ! 0)) (DataType (Columns rel ! (idx + 0))) = Inl err"
          by simp
        ultimately show ?thesis by blast
      next
        case (Inr val)
        with t lt have "insertValues L rel idx (col # cols) vs
            = insertValues L rel (Suc idx) cols (AList.update (Name (Columns rel ! idx)) val vs)"
          by (simp add: Let_def)
        with rec[of "AList.update (Name (Columns rel ! idx)) val vs"] show ?thesis by metis
      qed
    next
      case nt: False
      have "\<exists>w. insertValues L rel idx (col # cols) vs
            = insertValues L rel (Suc idx) cols w"
      proof (cases "TDataType col = CHR ''n''")
        case True
        with lt have "insertValues L rel idx (col # cols) vs
            = insertValues L rel (Suc idx) cols (AList.update (Name (Columns rel ! idx)) VNil vs)"
          by (simp add: Let_def)
        then show ?thesis by blast
      next
        case False
        with nt lt have "insertValues L rel idx (col # cols) vs
            = insertValues L rel (Suc idx) cols vs"
          by (simp add: Let_def)
        then show ?thesis by blast
      qed
      then obtain w where "insertValues L rel idx (col # cols) vs
            = insertValues L rel (Suc idx) cols w" by blast
      with rec[of w] show ?thesis by metis
    qed
  qed
qed

lemma insertColumns_decode_error:
  "idx + i < length (Columns rel) \<Longrightarrow> i < length cols \<Longrightarrow> TDataType (cols ! i) = CHR ''t'' \<Longrightarrow>
   decodeTextColumnData L (Data (cols ! i)) (DataType (Columns rel ! (idx + i))) = Inl err \<Longrightarrow>
     \<exists>err'. insertColumns L rel idx cols query vals = Inl (FatalDecodeColumn err')"
proof (induction cols arbitrary: idx i query vals)
  case Nil
  then show ?case by simp
next
  case (Cons col cols)
  from Cons.prems(1) have lt: "idx < length (Columns rel)" by simp
  show ?case
  proof (cases i)
    case 0
    with Cons.prems lt show ?thesis by (simp add: Let_def)
  next
    case (Suc j)
    with Cons.prems have a: "Suc idx + j < length (Columns rel)" and b: "j < length cols"
      and c: "TDataType (cols ! j) = CHR ''t''"
      and d: "decodeTextColumnData L (Data (cols ! j)) (DataType (Columns rel ! (Suc idx + j))) = Inl err"
      by simp_all
    have rec: "\<exists>err'. insertColumns L rel (Suc idx) cols q w = Inl (FatalDecodeColumn err')" for q w
      by (rule Cons.IH[OF a b c d])
    show ?thesis
    proof (cases "TDataType col = CHR ''t''")
      case t: True
      show ?thesis
      proof (cases "decodeTextColumnData L (Data col) (DataType (Columns rel ! idx))")
        case (Inl e0)
        with t lt show ?thesis by (simp add: Let_def)
      next
        case (Inr val)
        with t lt rec show ?thesis by (simp add: Let_def)
      qed
    next
      case nt: False
      show ?thesis
      proof (cases "TDataType col = CHR ''n''")
        case True
        with lt rec show ?thesis by (simp add: Let_def)
      next
        case False
        with nt lt rec show ?thesis by (simp add: Let_def)
      qed
    qed
  qed
qed

lemma insertValues_decode_error:
  "idx + i < length (Columns rel) \<Longrightarrow> i < length cols \<Longrightarrow> TDataType (cols ! i) = CHR ''t'' \<Longrightarrow>
   decodeTextColumnData L (Data (cols ! i)) (DataType (Columns rel ! (idx + i))) = Inl err \<Longrightarrow>
     \<exists>err'. insertValues L rel idx cols vs = Inl (FatalDecodeColumn err')"
proof (induction cols arbitrary: idx i vs)
  case Nil
  then show ?case by simp
next
  case (Cons col cols)
  from Cons.prems(1) have lt: "idx < length (Columns rel)" by simp
  show ?case
  proof (cases i)
    case 0
    with Cons.prems lt show ?thesis by (simp add: Let_def)
  next
    case (Suc j)
    with Cons.prems have a: "Suc idx + j < length (Columns rel)" and b: "j < length cols"
      and c: "TDataType (cols ! j) = CHR ''t''"
      and d: "decodeTextColumnData L (Data (cols ! j)) (DataType (Columns rel ! (Suc idx + j))) = Inl err"
      by simp_all
    have rec: "\<exists>err'. insertValues L rel (Suc idx) cols w = Inl (FatalDecodeColumn err')" for w
      by (rule Cons.IH[OF a b c d])
    show ?thesis
    proof (cases "TDataType col = CHR ''t''")
      case t: True
      show ?thesis
      proof (cases "decodeTextColumnData L (Data col) (DataType (Columns rel ! idx))")
        case (Inl e0)
        with t lt show ?thesis by (simp add: Let_def)
      next
        case (Inr val)
        with t lt rec show ?thesis by (simp add: Let_def)
      qed
    next
      case nt: False
      show ?thesis
      proof (cases "TDataType col = CHR ''n''")
        case True
        with lt rec show ?thesis by (simp add: Let_def)
      next
        case False
        with nt lt rec show ?thesis by (simp add: Let_def)
      qed
    qed
  qed
qed

lemma decode_error_outcome_V2:
  assumes "relationsV2 s rid = Some rel" "i < length (Columns rel)" "i < length cols"
    "TDataType (cols ! i) = CHR ''t''"
    "decodeTextColumnData L (Data (cols ! i)) (DataType (Columns rel ! i)) = Inl err"
  shows "\<exists>err'. processV2_switch L e (InsertMessageV2 xid rid cols) s = Inl (FatalDecodeColumn err')"
  using assms(1)
    insertColumns_decode_error[of 0 i rel cols L err
      "''INSERT INTO '' @ Sanitize L [Namespace rel, RelationName rel] @ ''(''" "[]"] assms(2-5)
  by (auto simp: insertQuery_def)

lemma decode_error_outcome_V1:
  assumes "relations s rid = Some rel" "i < length (Columns rel)" "i < length cols"
    "TDataType (cols ! i) = CHR ''t''"
    "decodeTextColumnData L (Data (cols ! i)) (DataType (Columns rel ! i)) = Inl err"
  shows "\<exists>err'. processV1_switch L (InsertMessage rid cols) s = Inl (FatalDecodeColumn err')"
  using assms(1) insertValues_decode_error[of 0 i rel cols L err "[]"] assms(2-5)
  by auto

lemma wide_tuple_outcome_V2:
  assumes "relationsV2 s rid = Some rel" "length (Columns rel) < length cols"
  shows "processV2_switch L e (InsertMessageV2 xid rid cols) s
       = Inl (PanicIndexOutOfRange (length (Columns rel)) (length (Columns rel)))
     \<or> (\<exists>i err. i < length (Columns rel) \<and> TDataType (cols ! i) = CHR ''t''
           \<and> decodeTextColumnData L (Data (cols ! i)) (DataType (Columns rel ! i)) = Inl err
           \<and> processV2_switch L e (InsertMessageV2 xid rid cols) s = Inl (FatalDecodeColumn err))"
  using assms
    insertColumns_wide[of 0 rel cols L
      "''INSERT INTO '' @ Sanitize L [Namespace rel, RelationName rel] @ ''(''" "[]"]
  by (auto simp: insertQuery_def)

lemma wide_tuple_outcome_V1:
  assumes "relations s rid = Some rel" "length (Columns rel) < length cols"
  shows "processV1_switch L (InsertMessage rid cols) s
       = Inl (PanicIndexOutOfRange (length (Columns rel)) (length (Columns rel)))
     \<or> (\<exists>i err. i < length (Columns rel) \<and> TDataType (cols ! i) = CHR ''t''
           \<and> decodeTextColumnData L (Data (cols ! i)) (DataType (Columns rel ! i)) = Inl err
           \<and> processV1_switch L (InsertMessage rid cols) s = Inl (FatalDecodeColumn err))"
  using assms insertValues_wide[of 0 rel cols L "[]"]
  by auto

text \<open>
  An insert whose tuple is wider than the cached relation does not always panic: when a
  text column within the width of the relation fails to decode, the process exits with
  \<^verbatim>\<open>log.Fatalln\<close> before the index leaves the range.
\<close>

theorem wide_tuple_decode_error_first:
  "relationsV2 withRelation 1 = Some exampleRelation
   \<and> ParseV2 (exampleLib insertTable) ''b'' (inStream withRelation) = Inr (InsertMessageV2 0 1 badWideTuple)
   \<and> length (Columns exampleRelation) < length badWideTuple
   \<and> processV2 (exampleLib insertTable) (atTime second) ''b'' withRelation
       = Inl (FatalDecodeColumn ''invalid syntax'')
   \<and> \<not> isPanic (FatalDecodeColumn ''invalid syntax'')"
  by code_simp

text \<open>
  C10, amended. An insert event whose tuple has more columns than the cached relation
  is never applied, in processV2 and in processV1: processing panics with an index out
  of range at the first position past the columns of the relation, unless a text
  column at an earlier position fails to decode, and then the process exits with that
  decoding error. Conversely, whenever a text column within the columns of the relation
  fails to decode, the outcome is a decoding error and not the panic.
\<close>

theorem wide_tuple_never_applied:
  "(relationsV2 s rid = Some rel \<longrightarrow> length (Columns rel) < length cols \<longrightarrow>
      ParseV2 L walData (inStream s) = Inr (InsertMessageV2 xid rid cols) \<longrightarrow>
        processV2 L e walData s
          = Inl (PanicIndexOutOfRange (length (Columns rel)) (length (Columns rel)))
        \<or> (\<exists>i err. i < length (Columns rel) \<and> TDataType (cols ! i) = CHR ''t''
              \<and> decodeTextColumnData L (Data (cols ! i)) (DataType (Columns rel ! i)) = Inl err
              \<and> processV2 L e walData s = Inl (FatalDecodeColumn err)))
   \<and> (relations s1 rid1 = Some rel1 \<longrightarrow> length (Columns rel1) < length cols1 \<longrightarrow>
      Parse L1 walData1 = Inr (InsertMessage rid1 cols1) \<longrightarrow>
        processV1 L1 walData1 s1
          = Inl (PanicIndexOutOfRange (length (Columns rel1)) (length (Columns rel1)))
        \<or> (\<exists>i err. i < length (Columns rel1) \<and> TDataType (cols1 ! i) = CHR ''t''
              \<and> decodeTextColumnData L1 (Data (cols1 ! i)) (DataType (Columns rel1 ! i)) = Inl err
              \<and> processV1 L1 walData1 s1 = Inl (FatalDecodeColumn err)))
   \<and> (relationsV2 s2 rid2 = Some rel2 \<longrightarrow> length (Columns rel2) < length cols2 \<longrightarrow>
      ParseV2 L2 walData2 (inStream s2) = Inr (InsertMessageV2 xid2 rid2 cols2) \<longrightarrow>
      i2 < length (Columns rel2) \<longrightarrow> TDataType (cols2 ! i2) = CHR ''t'' \<longrightarrow>
      decodeTextColumnData L2 (Data (cols2 ! i2)) (DataType (Columns rel2 ! i2)) = Inl err2 \<longrightarrow>
        (\<exists>err'. processV2 L2 e2 walData2 s2 = Inl (FatalDecodeColumn err')))
   \<and> (relations s3 rid3 = Some rel3 \<longrightarrow> length (Columns rel3) < length cols3 \<longrightarrow>
      Parse L3 walData3 = Inr (InsertMessage rid3 cols3) \<longrightarrow>
      i3 < length (Columns rel3) \<longrightarrow> TDataType (cols3 ! i3) = CHR ''t'' \<longrightarrow>
      decodeTextColumnData L3 (Data (cols3 ! i3)) (DataType (Columns rel3 ! i3)) = Inl err3 \<longrightarrow>
        (\<exists>err'. processV1 L3 walData3 s3 = Inl (FatalDecodeColumn err')))"
proof -
  have v2: "processV2 L e walData s
          = Inl (PanicIndexOutOfRange (length (Columns rel)) (length (Columns rel)))
        \<or> (\<exists>i err. i < length (Columns rel) \<and> TDataType (cols ! i) = CHR ''t''
              \<and> decodeTextColumnData L (Data (cols ! i)) (DataType (Columns rel ! i)) = Inl err
              \<and> processV2 L e walData s = Inl (FatalDecodeColumn err))"
    if "relationsV2 s rid = Some rel" "length (Columns rel) < length cols"
       "ParseV2 L walData (inStream s) = Inr (InsertMessageV2 xid rid cols)"
    using wide_tuple_outcome_V2[OF that(1,2), of L e xid] by (simp only: processV2_parsed[OF that(3)])
  have v1: "processV1 L1 walData1 s1
          = Inl (PanicIndexOutOfRange (length (Columns rel1)) (length (Columns rel1)))
        \<or> (\<exists>i err. i < length (Columns rel1) \<and> TDataType (cols1 ! i) = CHR ''t''
              \<and> decodeTextColumnData L1 (Data (cols1 ! i)) (DataType (Columns rel1 ! i)) = Inl err
              \<and> processV1 L1 walData1 s1 = Inl (FatalDecodeColumn err))"
    if "relations s1 rid1 = Some rel1" "length (Columns rel1) < length cols1"
       "Parse L1 walData1 = Inr (InsertMessage rid1 cols1)"
  proof -
    from that(1) have "relations (logPrintf LogReceive s1) rid1 = Some rel1"
      by (simp add: logPrintf_def)
    from wide_tuple_outcome_V1[OF this that(2), of L1] show ?thesis
      by (simp only: processV1_parsed[OF that(3)])
  qed
  have c2: "\<exists>err'. processV2 L2 e2 walData2 s2 = Inl (FatalDecodeColumn err')"
    if "relationsV2 s2 rid2 = Some rel2" "length (Columns rel2) < length cols2"
       "ParseV2 L2 walData2 (inStream s2) = Inr (InsertMessageV2 xid2 rid2 cols2)"
       "i2 < length (Columns rel2)" "TDataType (cols2 ! i2) = CHR ''t''"
       "decodeTextColumnData L2 (Data (cols2 ! i2)) (DataType (Columns rel2 ! i2)) = Inl err2"
  proof -
    from that(2,4) have "i2 < length cols2" by simp
    from decode_error_outcome_V2[OF that(1) that(4) this that(5) that(6), of e2 xid2]
    show ?thesis by (simp only: processV2_parsed[OF that(3)])
  qed
  have c1: "\<exists>err'. processV1 L3 walData3 s3 = Inl (FatalDecodeColumn err')"
    if "relations s3 rid3 = Some rel3" "length (Columns rel3) < length cols3"
       "Parse L3 walData3 = Inr (InsertMessage rid3 cols3)"
       "i3 < length (Columns rel3)" "TDataType (cols3 ! i3) = CHR ''t''"
       "decodeTextColumnData L3 (Data (cols3 ! i3)) (DataType (Columns rel3 ! i3)) = Inl err3"
  proof -
    from that(2,4) have il: "i3 < length cols3" by simp
    from that(1) have "relations (logPrintf LogReceive s3) rid3 = Some rel3"
      by (simp add: logPrintf_def)
    from decode_error_outcome_V1[OF this that(4) il that(5) that(6)]
    show ?thesis by (simp only: processV1_parsed[OF that(3)])
  qed
  from v2 v1 c2 c1 show ?thesis by blast
qed

theorem wide_tuple_never_applied_witness:
  "relationsV2 withRelation 1 = Some exampleRelation
   \<and> length (Columns exampleRelation) < length wideTuple
   \<and> ParseV2 (exampleLib insertTable) ''w'' (inStream withRelation) = Inr (InsertMessageV2 0 1 wideTuple)
   \<and> processV2 (exampleLib insertTable) (atTime second) ''w'' withRelation = Inl (PanicIndexOutOfRange 2 2)
   \<and> relations withRelation 1 = Some exampleRelation
   \<and> Parse (exampleLib insertTable) ''W'' = Inr (InsertMessage 1 wideTuple)
   \<and> processV1 (exampleLib insertTable) ''W'' withRelation = Inl (PanicIndexOutOfRange 2 2)
   \<and> length (Columns exampleRelation) < length badWideTuple
   \<and> ParseV2 (exampleLib insertTable) ''b'' (inStream withRelation) = Inr (InsertMessageV2 0 1 badWideTuple)
   \<and> Parse (exampleLib insertTable) ''B'' = Inr (InsertMessage 1 badWideTuple)
   \<and> (0::nat) < length (Columns exampleRelation) \<and> TDataType (badWideTuple ! 0) = CHR ''t''
   \<and> decodeTextColumnData (exampleLib insertTable) (Data (badWideTuple ! 0))
         (DataType (Columns exampleRelation ! 0)) = Inl ''invalid syntax''
   \<and> (\<exists>err'. processV2 (exampleLib insertTable) (atTime second) ''b'' withRelation
                 = Inl (FatalDecodeColumn err'))
   \<and> (\<exists>err'. processV1 (exampleLib insertTable) ''B'' withRelation = Inl (FatalDecodeColumn err'))"
proof -
  have h1: "relationsV2 withRelation 1 = Some exampleRelation" "relations withRelation 1 = Some exampleRelation"
    by (simp_all add: withRelation_def)
  have h2: "length (Columns exampleRelation) < length wideTuple"
    "length (Columns exampleRelation) < length badWideTuple"
    "(0::nat) < length (Columns exampleRelation)"
    by (simp_all add: exampleRelation_def wideTuple_def badWideTuple_def)
  have h3: "ParseV2 (exampleLib insertTable) ''w'' (inStream withRelation) = Inr (InsertMessageV2 0 1 wideTuple)"
    "ParseV2 (exampleLib insertTable) ''b'' (inStream withRelation) = Inr (InsertMessageV2 0 1 badWideTuple)"
    by (simp_all add: exampleLib_def insertTable_def withRelation_def initialState_def)
  have h4: "Parse (exampleLib insertTable) ''W'' = Inr (InsertMessage 1 wideTuple)"
    "Parse (exampleLib insertTable) ''B'' = Inr (InsertMessage 1 badWideTuple)"
    by (simp_all add: exampleLib_def insertTable_def)
  have h5: "processV2 (exampleLib insertTable) (atTime second) ''w'' withRelation = Inl (PanicIndexOutOfRange 2 2)"
    by code_simp
  have h6: "processV1 (exampleLib insertTable) ''W'' withRelation = Inl (PanicIndexOutOfRange 2 2)"
    by code_simp
  have h7: "TDataType (badWideTuple ! 0) = CHR ''t''"
    by (simp add: badWideTuple_def)
  have h8: "decodeTextColumnData (exampleLib insertTable) (Data (badWideTuple ! 0))
         (DataType (Columns exampleRelation ! 0)) = Inl ''invalid syntax''"
    by code_simp
  show ?thesis
    using h1 h2 h3 h4 h5 h6 h7 h8
      wide_tuple_never_applied
        [where s = withRelation and rid = 1 and rel = exampleRelation and cols = wideTuple
           and L = "exampleLib insertTable" and walData = "''w''" and xid = 0 and e = "atTime second"
           and ?s1.0 = withRelation and ?rid1.0 = 1 and ?rel1.0 = exampleRelation
           and ?cols1.0 = wideTuple and ?L1.0 = "exampleLib insertTable" and ?walData1.0 = "''W''"
           and ?s2.0 = withRelation and ?rid2.0 = 1 and ?rel2.0 = exampleRelation
           and ?cols2.0 = badWideTuple and ?L2.0 = "exampleLib insertTable" and ?walData2.0 = "''b''"
           and ?xid2.0 = 0 and ?i2.0 = 0 and ?err2.0 = "''invalid syntax''" and ?e2.0 = "atTime second"
           and ?s3.0 = withRelation and ?rid3.0 = 1 and ?rel3.0 = exampleRelation
           and ?cols3.0 = badWideTuple and ?L3.0 = "exampleLib insertTable" and ?walData3.0 = "''B''"
           and ?i3.0 = 0 and ?err3.0 = "''invalid syntax''"]
    by simp
qed


section \<open>An unchanged-toast column in an insert\<close>

text \<open>
  C1, on the code. For an insert whose second column is an unchanged-toast column,
  processV2 queues a statement that still lists that column and still has a placeholder
  for it, with one bound value fewer than placeholders; processV1, on the same tuple,
  leaves the column out of its values.
\<close>

theorem unchanged_toast_column_listed:
  \<open>ParseV2 (exampleLib insertTable) ''u'' (inStream withRelation) = Inr (InsertMessageV2 0 1 toastInsert)
   \<and> map TDataType toastInsert = ''tu''
   \<and> map_sum id (\<lambda>s. batch (applyCtx s))
        (processV2 (exampleLib insertTable) (atTime second) ''u'' withRelation)
       = Inr [\<lparr>SQL = ''INSERT INTO "public"."t"("id", "big") overriding system value VALUES($1, $2)'',
               Arguments = [VInt 1]\<rparr>]
   \<and> map_sum id logged (processV1 (exampleLib insertTable) ''U'' withRelation)
       = Inr [LogReceive, LogInsert ''public'' ''t'' [(''id'', VInt 1)]]\<close>
  by code_simp

section \<open>Flushes and transaction boundaries\<close>

text \<open>
  C2, on the code. An insert that arrives inside a streamed segment of transaction 7
  is queued like any other. It is then sent to the target when the timer fires, with
  no commit message handled at all, and also when another transaction commits, while
  transaction 7 has neither been committed nor aborted.
\<close>

theorem streamed_insert_flushed_before_commit:
  \<open>map (\<lambda>(walData, flag). ParseV2 (exampleLib streamTable) walData flag)
       [(''R'', False), (''S'', False), (''I'', True), (''E'', True), (''B'', False), (''C'', False)]
     = [Inr (RelationMessageV2 exampleRelation), Inr (StreamStartMessageV2 7 1),
        Inr (InsertMessageV2 7 1 [\<lparr>TDataType = CHR ''t'', Data = ''1''\<rparr>, \<lparr>TDataType = CHR ''n'', Data = []\<rparr>]),
        Inr StreamStopMessageV2, Inr BeginMessage, Inr (CommitMessage 100 5)]
   \<and> map_sum id (\<lambda>s. conn (applyCtx s))
        (applyLoop (exampleLib streamTable) True
           (streamedTrace @ [(atTime (2 * second), TimerC)]) (initialState 0))
       = Inr [[\<lparr>SQL = ''INSERT INTO "public"."t"("id", "big") overriding system value VALUES($1, $2)'',
                Arguments = [VInt 1, VNil]\<rparr>,
               \<lparr>SQL = originSetupSQL, Arguments = [VLSN 0, VTime zeroTime]\<rparr>]]
   \<and> map_sum id (\<lambda>s. conn (applyCtx s))
        (applyLoop (exampleLib streamTable) True
           (streamedTrace @ [(atTime (3 * second), WalData ''B''), (atTime (3 * second), WalData ''C'')])
           (initialState 0))
       = Inr [[\<lparr>SQL = ''INSERT INTO "public"."t"("id", "big") overriding system value VALUES($1, $2)'',
                Arguments = [VInt 1, VNil]\<rparr>,
               \<lparr>SQL = originSetupSQL, Arguments = [VLSN 100, VTime 5]\<rparr>]]\<close>
  by code_simp

text \<open>
  C4, on the code. On the run of C2 that ends with the timer firing, the messages
  decoded are a relation, a stream start, an insert and a stream stop: none is a commit.
  The flush still sends a group of two operations whose last one is the origin
  acknowledgment, and it carries position 0 and the zero time, which are the position
  and timestamp of no committed transaction.
\<close>

theorem flush_marker_without_commit:
  \<open>decodedAlong (exampleLib streamTable) (streamedTrace @ [(atTime (2 * second), TimerC)])
       (initialState 0)
     = [Inr (RelationMessageV2 exampleRelation), Inr (StreamStartMessageV2 7 1),
        Inr (InsertMessageV2 7 1 [\<lparr>TDataType = CHR ''t'', Data = ''1''\<rparr>, \<lparr>TDataType = CHR ''n'', Data = []\<rparr>]),
        Inr StreamStopMessageV2]
   \<and> \<not> list_ex isCommit
         (decodedAlong (exampleLib streamTable) (streamedTrace @ [(atTime (2 * second), TimerC)])
            (initialState 0))
   \<and> map_sum id (\<lambda>s. map (\<lambda>group. (length group, last group)) (conn (applyCtx s)))
        (applyLoop (exampleLib streamTable) True
           (streamedTrace @ [(atTime (2 * second), TimerC)]) (initialState 0))
       = Inr [(2, \<lparr>SQL = originSetupSQL, Arguments = [VLSN 0, VTime zeroTime]\<rparr>)]\<close>
  by code_simp

text \<open>
  What begin and commit do guarantee with timer channels from which nothing is received
  after \<^verbatim>\<open>Stop\<close> (\<open>applyStep\<close>): from the initial state on, the timer is stopped whenever a
  transaction is in progress, and a step that sends a batch leaves no transaction in
  progress. So no flush happens between a begin message and the commit message that
  follows it.
\<close>

lemma processV2_switch_timerStopped:
  "timerStoppedInTxn (applyCtx s) \<Longrightarrow> processV2_switch L e m s = Inr s' \<Longrightarrow>
     timerStoppedInTxn (applyCtx s')
     \<and> (conn (applyCtx s') \<noteq> conn (applyCtx s) \<longrightarrow> \<not> txnInProgress (applyCtx s'))"
  by (cases m)
     (auto simp: timerStoppedInTxn_def logPrintf_def applyContext_begin_def applyContext_queue_def
           dest!: withApply_Inr commit_sets_marker split: option.splits sum.splits if_splits)

lemma applyStep_timerStopped:
  assumes "timerStoppedInTxn (applyCtx s)" "applyStep L v2 e ev s = Inr s'"
  shows "timerStoppedInTxn (applyCtx s')
     \<and> (conn (applyCtx s') \<noteq> conn (applyCtx s) \<longrightarrow> \<not> txnInProgress (applyCtx s'))"
proof (cases ev)
  case TimerC
  show ?thesis
  proof (cases "timerReady e s")
    case True
    with assms TimerC obtain a l where
      f: "applyContext_flush e ((applyCtx s)\<lparr>timer := None\<rparr>) = Inr (a, l)"
      and s': "s' = s\<lparr>applyCtx := a, logged := logged s @ l\<rparr>"
      by (auto dest!: withApply_Inr)
    from True assms(1) have "\<not> txnInProgress (applyCtx s)"
      by (auto simp: timerReady_def timerStoppedInTxn_def split: option.splits if_splits)
    with flush_keeps_marker[OF f] s' show ?thesis
      by (simp add: timerStoppedInTxn_def)
  next
    case False
    with assms TimerC show ?thesis by simp
  qed
next
  case (WalData w)
  show ?thesis
  proof (cases v2)
    case True
    with assms WalData obtain m where q: "processV2_switch L e m s = Inr s'"
      by (auto simp: processV2_def split: sum.splits)
    from processV2_switch_timerStopped[OF assms(1) q] show ?thesis .
  next
    case False
    with assms WalData obtain m where q: "processV1_switch L m (logPrintf LogReceive s) = Inr s'"
      by (auto simp: processV1_def split: sum.splits)
    from processV1_switch_ctx[OF q] assms(1) show ?thesis
      by (simp add: logPrintf_def)
  qed
qed

lemma no_flush_between_begin_and_commit:
  "timerStoppedInTxn (applyCtx s) \<Longrightarrow> applyLoop L v2 evs s = Inr s' \<Longrightarrow>
     timerStoppedInTxn (applyCtx s')"
proof (induction evs arbitrary: s)
  case Nil
  then show ?case by simp
next
  case (Cons x evs)
  obtain e ev where x: "x = (e, ev)" by (cases x)
  from Cons.prems x obtain s1 where st: "applyStep L v2 e ev s = Inr s1"
    and rest: "applyLoop L v2 evs s1 = Inr s'"
    by (auto split: sum.splits)
  from applyStep_timerStopped[OF Cons.prems(1) st] have "timerStoppedInTxn (applyCtx s1)" by simp
  from Cons.IH[OF this rest] show ?case .
qed

lemma initialState_timerStopped: "timerStoppedInTxn (applyCtx (initialState start))"
  by (simp add: timerStoppedInTxn_def initialState_def)

text \<open>
  With buffered timer channels (\<open>applyStepBuffered\<close>) this guarantee is lost. When the
  begin message is handled after the time of the timer has come, the tick is already in
  the buffer, \<^verbatim>\<open>Stop\<close> does not remove it, and the flush it triggers sends the insert of the
  transaction that is still in progress; the same run without the buffer sends nothing.
\<close>

lemma stale_tick_flushes_inside_transaction:
  \<open>map_sum id (\<lambda>st. (conn (applyCtx (fst st)), txnInProgress (applyCtx (fst st))))
       (applyLoopBuffered (exampleLib plainTable) True lateBeginTrace (initialState 0, False))
     = Inr ([[\<lparr>SQL = ''INSERT INTO "public"."t"("id", "big") overriding system value VALUES($1, $2)'',
                Arguments = [VInt 1, VNil]\<rparr>,
               \<lparr>SQL = originSetupSQL, Arguments = [VLSN 0, VTime zeroTime]\<rparr>]], True)
   \<and> map_sum id (\<lambda>s. (conn (applyCtx s), batch (applyCtx s), txnInProgress (applyCtx s)))
       (applyLoop (exampleLib plainTable) True lateBeginTrace (initialState 0))
     = Inr ([], [\<lparr>SQL = ''INSERT INTO "public"."t"("id", "big") overriding system value VALUES($1, $2)'',
                Arguments = [VInt 1, VNil]\<rparr>], True)\<close>
  by code_simp

end
